theory Spec2Isabelle
  imports Complex_Main
begin

section \<open>The learning dice opponent (learning\_ai\_opponent.py)\<close>

text \<open>
  A shallow embedding of the Python module. Python floats are modelled as exact reals,
  so rounding, overflow and NaN are outside the model. A Python exception is a value
  \<open>Inl e\<close> of a sum type; an operation that mutates the engine returns the engine
  as it is when the call ends, also when the call ends by an exception.
\<close>

datatype error =
  AssertionError | ZeroDivisionError | ValueError | LinAlgError | TypeError | AttributeError

subsection \<open>BetaTracker\<close>

record BetaTracker =
  alpha :: real
  beta :: real

text \<open>The constructor call \<^verbatim>\<open>BetaTracker(a, b)\<close>.\<close>

definition mk_tracker :: "real \<Rightarrow> real \<Rightarrow> BetaTracker" where
  "mk_tracker a b = \<lparr>alpha = a, beta = b\<rparr>"

text \<open>\<^verbatim>\<open>mean\<close>: Python's float division raises ZeroDivisionError on a zero divisor.\<close>

definition mean :: "BetaTracker \<Rightarrow> error + real" where
  "mean t = (if alpha t + beta t = 0 then Inl ZeroDivisionError
             else Inr (alpha t / (alpha t + beta t)))"

text \<open>
  \<^verbatim>\<open>thompson\<close>: the value drawn by \<^verbatim>\<open>random.betavariate\<close> is the
  argument \<open>draw\<close>; the library raises ValueError unless both parameters are positive.
\<close>

definition thompson :: "real \<Rightarrow> BetaTracker \<Rightarrow> error + real" where
  "thompson draw t = (if alpha t \<le> 0 \<or> beta t \<le> 0 then Inl ValueError else Inr draw)"

text \<open>\<^verbatim>\<open>update\<close> (the name \<open>update\<close> is kept for the bandit's method).\<close>

definition tracker_update :: "bool \<Rightarrow> BetaTracker \<Rightarrow> BetaTracker" where
  "tracker_update success t =
     (if success then t\<lparr>alpha := alpha t + 1\<rparr> else t\<lparr>beta := beta t + 1\<rparr>)"

text \<open>A sequence of \<^verbatim>\<open>update\<close> calls, first call first.\<close>

definition tracker_updates :: "bool list \<Rightarrow> BetaTracker \<Rightarrow> BetaTracker" where
  "tracker_updates us t = fold tracker_update us t"

subsection \<open>OpponentProfile\<close>

text \<open>The dictionary \<^verbatim>\<open>bluff_rate\<close> is a map from category labels to trackers.\<close>

record OpponentProfile =
  bluff_rate :: "string \<rightharpoonup> BetaTracker"
  call_rate :: BetaTracker
  small_raise_pref :: BetaTracker

definition default_bluff_rate :: "string \<rightharpoonup> BetaTracker" where
  "default_bluff_rate =
     [''mexican'' \<mapsto> mk_tracker 1 3, ''double'' \<mapsto> mk_tracker 1 2, ''normal'' \<mapsto> mk_tracker 1 1]"

text \<open>The constructor call \<^verbatim>\<open>OpponentProfile()\<close> with its default factories.\<close>

definition new_profile :: OpponentProfile where
  "new_profile =
     \<lparr>bluff_rate = default_bluff_rate, call_rate = mk_tracker 1 2,
      small_raise_pref = mk_tracker 1 1\<rparr>"

text \<open>\<^verbatim>\<open>opp.bluff_rate.get(cat, BetaTracker(1, 1))\<close>: a read that stores nothing.\<close>

definition bluff_rate_get :: "OpponentProfile \<Rightarrow> string \<Rightarrow> BetaTracker" where
  "bluff_rate_get opp cat = (case bluff_rate opp cat of Some t \<Rightarrow> t | None \<Rightarrow> mk_tracker 1 1)"

text \<open>
  \<^verbatim>\<open>p.bluff_rate.setdefault(cat, BetaTracker(1, 1)).update(success)\<close>: the tracker is
  stored under the key when the key is new, and the stored tracker is updated.
\<close>

definition bluff_rate_setdefault_update :: "string \<Rightarrow> bool \<Rightarrow> OpponentProfile \<Rightarrow> OpponentProfile" where
  "bluff_rate_setdefault_update cat success p =
     p\<lparr>bluff_rate := (bluff_rate p)(cat \<mapsto>
          tracker_update success
            (case bluff_rate p cat of Some t \<Rightarrow> t | None \<Rightarrow> mk_tracker 1 1))\<rparr>"

subsection \<open>LinUCB\<close>

text \<open>
  A numpy matrix is the list of its rows, the column vector \<^verbatim>\<open>b\<close> the list of its
  entries. The fields \<^verbatim>\<open>d\<close>, \<^verbatim>\<open>alpha\<close>, \<^verbatim>\<open>A\<close>, \<^verbatim>\<open>b\<close> are named
  \<open>dim\<close>, \<open>ucb_alpha\<close>, \<open>mat_A\<close>, \<open>vec_b\<close>.
\<close>

type_synonym vector = "real list"
type_synonym matrix = "real list list"

record LinUCB =
  dim :: nat
  ucb_alpha :: real
  mat_A :: matrix
  vec_b :: vector

definition eye :: "nat \<Rightarrow> matrix" where
  "eye n = map (\<lambda>i. map (\<lambda>j. if i = j then 1 else 0) [0..<n]) [0..<n]"

definition zeros :: "nat \<Rightarrow> vector" where
  "zeros n = replicate n 0"

definition new_LinUCB :: "nat \<Rightarrow> real \<Rightarrow> LinUCB" where
  "new_LinUCB n a = \<lparr>dim = n, ucb_alpha = a, mat_A = eye n, vec_b = zeros n\<rparr>"

definition dot :: "vector \<Rightarrow> vector \<Rightarrow> real" where
  "dot x y = sum_list (map2 (*) x y)"

definition matvec :: "matrix \<Rightarrow> vector \<Rightarrow> vector" where
  "matvec M x = map (\<lambda>row. dot row x) M"

definition ncols :: "matrix \<Rightarrow> nat" where
  "ncols M = (case M of [] \<Rightarrow> 0 | row # _ \<Rightarrow> length row)"

text \<open>
  numpy broadcasting of a vector along an axis of length \<open>n\<close>: a vector of that length
  is taken as it is, a vector of length one is repeated, any other length is refused.
\<close>

definition broadcast_vec :: "nat \<Rightarrow> vector \<Rightarrow> vector option" where
  "broadcast_vec n x =
     (if length x = n then Some x
      else if length x = 1 then Some (replicate n (hd x))
      else None)"

text \<open>
  \<^verbatim>\<open>self.A += x @ x.T\<close>: the in-place addition needs the k-by-k outer product to
  broadcast to the shape of \<^verbatim>\<open>A\<close>, and raises ValueError otherwise (also for the
  one-dimensional empty array, written \<open>[]\<close>).
\<close>

definition iadd_outer :: "matrix \<Rightarrow> vector \<Rightarrow> error + matrix" where
  "iadd_outer M x =
     (if M = [] then Inl ValueError
      else case (broadcast_vec (length M) x, broadcast_vec (ncols M) x) of
             (Some xr, Some xc) \<Rightarrow>
               Inr (map2 (\<lambda>xi row. map2 (\<lambda>xj a. a + xi * xj) xc row) xr M)
           | _ \<Rightarrow> Inl ValueError)"

text \<open>\<^verbatim>\<open>self.b += reward * x\<close>.\<close>

definition iadd_scaled :: "vector \<Rightarrow> real \<Rightarrow> vector \<Rightarrow> error + vector" where
  "iadd_scaled v reward x =
     (case broadcast_vec (length v) x of
        Some xb \<Rightarrow> Inr (map2 (\<lambda>vi xi. vi + reward * xi) v xb)
      | None \<Rightarrow> Inl ValueError)"

text \<open>
  \<^verbatim>\<open>LinUCB.update\<close>. When the second statement raises, the first has already changed
  \<^verbatim>\<open>A\<close>.
\<close>

definition update :: "vector \<Rightarrow> real \<Rightarrow> LinUCB \<Rightarrow> (error + unit) \<times> LinUCB" where
  "update x reward B =
     (case iadd_outer (mat_A B) x of
        Inl e \<Rightarrow> (Inl e, B)
      | Inr A' \<Rightarrow>
          (case iadd_scaled (vec_b B) reward x of
             Inl e \<Rightarrow> (Inl e, B\<lparr>mat_A := A'\<rparr>)
           | Inr b' \<Rightarrow> (Inr (), B\<lparr>mat_A := A', vec_b := b'\<rparr>)))"

text \<open>A sequence of \<^verbatim>\<open>update\<close> calls; a call that raises is left behind and the next one runs.\<close>

definition updates :: "(vector \<times> real) list \<Rightarrow> LinUCB \<Rightarrow> LinUCB" where
  "updates calls B = fold (\<lambda>(x, reward) B'. snd (update x reward B')) calls B"

text \<open>
  \<^verbatim>\<open>max(scores, key=scores.get)\<close>: the first key, in insertion order, whose score is
  maximal; ValueError on no key at all.
\<close>

fun first_max :: "('a \<times> real) list \<Rightarrow> 'a option" where
  "first_max [] = None"
| "first_max (p # ps) =
     Some (fst (fold (\<lambda>(a, v) (b, w). if w < v then (a, v) else (b, w)) ps p))"

text \<open>
  \<^verbatim>\<open>LinUCB.choose\<close> (\<open>choose\<close> is the binomial coefficient in HOL). The
  library routine \<^verbatim>\<open>np.linalg.inv\<close> is the parameter \<open>linalg_inv\<close>, \<open>None\<close>
  where the library raises LinAlgError; it returns a matrix of the shape of its
  argument. The matrix products raise ValueError on operands whose lengths differ. The
  contexts are listed in the dictionary's insertion order. The square root of a
  negative number is NaN in numpy and lies outside the model.
\<close>

definition score :: "real \<Rightarrow> matrix \<Rightarrow> vector \<Rightarrow> vector \<Rightarrow> real" where
  "score a Ainv theta x = dot theta x + a * sqrt (dot x (matvec Ainv x))"

definition linucb_choose ::
  "(matrix \<Rightarrow> matrix option) \<Rightarrow> LinUCB \<Rightarrow> ('a \<times> vector) list \<Rightarrow> error + ('a \<times> ('a \<times> real) list)" where
  "linucb_choose linalg_inv B contexts =
     (case linalg_inv (mat_A B) of
        None \<Rightarrow> Inl LinAlgError
      | Some Ainv \<Rightarrow>
          if length (vec_b B) \<noteq> length (mat_A B) then Inl ValueError
          else let theta = matvec Ainv (vec_b B) in
            if list_ex (\<lambda>(act, x). length x \<noteq> length (mat_A B)) contexts then Inl ValueError
            else let scores = map (\<lambda>(act, x). (act, score (ucb_alpha B) Ainv theta x)) contexts in
              (case first_max scores of
                 None \<Rightarrow> Inl ValueError
               | Some act \<Rightarrow> Inr (act, scores)))"

subsection \<open>LearningAIDiceOpponent\<close>

text \<open>
  A claim and a roll are pairs of die values. The four rule functions are injected by
  \<^verbatim>\<open>set_rules\<close> and are \<open>None\<close> before; they are taken to be pure and total.
  The pending context \<^verbatim>\<open>_last_context\<close> is the field \<open>last_context\<close>, the
  \<^verbatim>\<open>defaultdict\<close> \<^verbatim>\<open>_profiles\<close> the map \<open>profiles\<close>.
\<close>

type_synonym claim = "int \<times> int"
type_synonym roll = "int \<times> int"

datatype action = CALL | RAISE

datatype decision = Raise claim | CallBluff

record engine =
  player_id :: string
  compare_claims :: "(claim \<Rightarrow> claim \<Rightarrow> int) option"
  next_higher_claim :: "(claim \<Rightarrow> claim) option"
  categorize_claim :: "(claim \<Rightarrow> string) option"
  claim_matches_roll :: "(claim \<Rightarrow> roll \<Rightarrow> bool) option"
  profiles :: "string \<rightharpoonup> OpponentProfile"
  feature_dim :: nat
  bandit :: LinUCB
  call_risk_bias :: real
  raise_bluff_cap :: real
  truth_bias :: real
  last_context :: "(string \<times> action \<times> vector) option"

text \<open>\<^verbatim>\<open>__init__\<close>.\<close>

definition new_engine :: "string \<Rightarrow> engine" where
  "new_engine pid =
     \<lparr>player_id = pid, compare_claims = None, next_higher_claim = None,
      categorize_claim = None, claim_matches_roll = None, profiles = Map.empty,
      feature_dim = 9, bandit = new_LinUCB 9 (9 / 10), call_risk_bias = 5 / 100,
      raise_bluff_cap = 60 / 100, truth_bias = 15 / 100, last_context = None\<rparr>"

definition set_rules ::
  "(claim \<Rightarrow> claim \<Rightarrow> int) \<Rightarrow> (claim \<Rightarrow> claim) \<Rightarrow> (claim \<Rightarrow> string) \<Rightarrow> (claim \<Rightarrow> roll \<Rightarrow> bool)
   \<Rightarrow> engine \<Rightarrow> engine" where
  "set_rules cmp nxt categ matches s =
     s\<lparr>compare_claims := Some cmp, next_higher_claim := Some nxt,
       categorize_claim := Some categ, claim_matches_roll := Some matches\<rparr>"

text \<open>
  \<^verbatim>\<open>self._profiles[opponent_id]\<close>: the \<^verbatim>\<open>defaultdict\<close> stores a fresh default
  profile under a key it does not have.
\<close>

definition profile_of :: "string \<Rightarrow> engine \<Rightarrow> OpponentProfile \<times> engine" where
  "profile_of opponent_id s =
     (case profiles s opponent_id of
        Some p \<Rightarrow> (p, s)
      | None \<Rightarrow> (new_profile, s\<lparr>profiles := (profiles s)(opponent_id \<mapsto> new_profile)\<rparr>))"

text \<open>
  The values drawn from \<^verbatim>\<open>random\<close> during one call of \<^verbatim>\<open>decide_action\<close>, each
  drawn at most once: the coin of the truthful fast path, the Thompson sample, the coin
  between the truthful and the pressure raise, the draw \<^verbatim>\<open>r\<close> of
  \<^verbatim>\<open>_pick_pressure_claim\<close>, and the position \<^verbatim>\<open>random.choice\<close> picks in
  \<^verbatim>\<open>[1, 1, 2]\<close>.
\<close>

record draws =
  truth_coin :: real
  bluff_sample :: real
  raise_coin :: real
  pressure_draw :: real
  jump_choice :: nat

text \<open>What the module takes from numpy: the matrix inverse.\<close>

record externals =
  linalg_inv :: "matrix \<Rightarrow> matrix option"

text \<open>
  \<^verbatim>\<open>self._make_context(...)\<close>, called at lines 115 and 125. The class defines no
  method or attribute of this name, has no base class and no \<^verbatim>\<open>__getattr__\<close>, and
  the module is the whole program: the attribute lookup raises AttributeError, before
  any argument is evaluated.
\<close>

definition make_context ::
  "claim \<Rightarrow> int \<Rightarrow> vector \<Rightarrow> real \<Rightarrow> real \<Rightarrow> bool \<Rightarrow> real \<Rightarrow> real \<Rightarrow> error + vector" where
  "make_context current_claim round_index onehot bluff_mean call_mean has_truthful distance flag =
     Inl AttributeError"

subsubsection \<open>Utilities\<close>

definition canonical_claim_from_roll :: "roll \<Rightarrow> claim" where
  "canonical_claim_from_roll r = (max (fst r) (snd r), min (fst r) (snd r))"

definition best_truthful_above ::
  "(claim \<Rightarrow> claim \<Rightarrow> int) \<Rightarrow> claim \<Rightarrow> roll \<Rightarrow> claim option" where
  "best_truthful_above cmp current_claim my_roll =
     (let truth_claim = canonical_claim_from_roll my_roll
      in if cmp truth_claim current_claim > 0 then Some truth_claim else None)"

text \<open>\<^verbatim>\<open>for _ in range(step): claim = self.next_higher_claim(claim)\<close>.\<close>

primrec apply_steps :: "(claim \<Rightarrow> claim) \<Rightarrow> nat \<Rightarrow> claim \<Rightarrow> claim" where
  "apply_steps nxt 0 c = c"
| "apply_steps nxt (Suc n) c = apply_steps nxt n (nxt c)"

text \<open>The number of steps \<^verbatim>\<open>_pick_pressure_claim\<close> takes, from the mean and the draw.\<close>

definition pressure_steps :: "bool \<Rightarrow> real \<Rightarrow> real \<Rightarrow> nat" where
  "pressure_steps allow_bluff p_call r =
     (let step = 1 in
      if allow_bluff then
        (let extra = 0;
             extra = (if p_call > 55 / 100 \<and> r < 50 / 100 then 1 else extra);
             extra = (if p_call > 65 / 100 \<and> r < 25 / 100 then 2 else extra)
         in step + extra)
      else step)"

definition pick_pressure_claim ::
  "(claim \<Rightarrow> claim) \<Rightarrow> real \<Rightarrow> claim \<Rightarrow> bool \<Rightarrow> OpponentProfile \<Rightarrow> error + claim" where
  "pick_pressure_claim nxt r current_claim allow_bluff opp =
     (case mean (call_rate opp) of
        Inl e \<Rightarrow> Inl e
      | Inr p_call \<Rightarrow> Inr (apply_steps nxt (pressure_steps allow_bluff p_call r) current_claim))"

definition pressure_jump_above :: "(claim \<Rightarrow> claim) \<Rightarrow> nat \<Rightarrow> claim \<Rightarrow> claim" where
  "pressure_jump_above nxt choice baseline =
     apply_steps nxt ([1, 1, 2] ! (choice mod 3)) baseline"

definition is_weak_truth :: "(claim \<Rightarrow> string) \<Rightarrow> claim \<Rightarrow> bool" where
  "is_weak_truth categ c = (categ c = ''normal'')"

definition cat_onehot :: "string \<Rightarrow> vector" where
  "cat_onehot cat =
     [if cat = ''mexican'' then 1 else 0,
      if cat = ''double'' then 1 else 0,
      if cat = ''normal'' then 1 else 0]"

text \<open>The bounded \<^verbatim>\<open>while\<close> loops of the two distance functions.\<close>

function count_steps ::
  "(claim \<Rightarrow> claim \<Rightarrow> int) \<Rightarrow> (claim \<Rightarrow> claim) \<Rightarrow> nat \<Rightarrow> claim \<Rightarrow> claim \<Rightarrow> nat \<Rightarrow> nat" where
  "count_steps cmp nxt bound target cur steps =
     (if cmp cur target < 0 \<and> steps < bound
      then count_steps cmp nxt bound target (nxt cur) (steps + 1)
      else steps)"
  by pat_completeness auto
termination
  by (relation "measure (\<lambda>(cmp, nxt, bound, target, cur, steps). bound - steps)") auto

definition distance_from_next ::
  "(claim \<Rightarrow> claim \<Rightarrow> int) \<Rightarrow> (claim \<Rightarrow> claim) \<Rightarrow> claim \<Rightarrow> roll \<Rightarrow> real" where
  "distance_from_next cmp nxt current_claim my_roll =
     (let truth = canonical_claim_from_roll my_roll
      in if cmp truth current_claim \<le> 0 then 0
         else real (count_steps cmp nxt 20 truth current_claim 0))"

definition step_distance ::
  "(claim \<Rightarrow> claim \<Rightarrow> int) \<Rightarrow> (claim \<Rightarrow> claim) \<Rightarrow> claim \<Rightarrow> claim \<Rightarrow> nat" where
  "step_distance cmp nxt a b =
     (if cmp a b \<ge> 0 then 0 else count_steps cmp nxt 30 b a 0)"

subsubsection \<open>decide\_action\<close>

text \<open>Lines 145 to 154: the raise that ends the bandit path.\<close>

definition raise_move ::
  "draws \<Rightarrow> (claim \<Rightarrow> claim) \<Rightarrow> string \<Rightarrow> claim \<Rightarrow> claim option \<Rightarrow> OpponentProfile \<Rightarrow> vector
   \<Rightarrow> engine \<Rightarrow> (error + decision) \<times> engine" where
  "raise_move dr nxt opponent_id current_claim truthful opp ctx_raise s =
     (case (case truthful of
              Some t \<Rightarrow>
                if raise_coin dr < 7 / 10 + truth_bias s then Inr t
                else pick_pressure_claim nxt (pressure_draw dr) current_claim True opp
            | None \<Rightarrow> pick_pressure_claim nxt (pressure_draw dr) current_claim True opp) of
        Inl e \<Rightarrow> (Inl e, s)
      | Inr c \<Rightarrow>
          (Inr (Raise c), s\<lparr>last_context := Some (opponent_id, RAISE, ctx_raise)\<rparr>))"

text \<open>
  Lines 109 to 154: the path through the bandit. The statements after line 115 are in
  the model as they are in the source; the call of line 115 never returns.
\<close>

definition bandit_move ::
  "externals \<Rightarrow> draws \<Rightarrow> (claim \<Rightarrow> claim \<Rightarrow> int) \<Rightarrow> (claim \<Rightarrow> claim) \<Rightarrow> (claim \<Rightarrow> string)
   \<Rightarrow> string \<Rightarrow> claim \<Rightarrow> roll \<Rightarrow> int \<Rightarrow> claim option \<Rightarrow> engine
   \<Rightarrow> (error + decision) \<times> engine" where
  "bandit_move ext dr cmp nxt categ opponent_id current_claim my_roll round_index truthful s0 =
     (let (opp, s) = profile_of opponent_id s0;
          cat = categ current_claim
      in case mean (bluff_rate_get opp cat) of
           Inl e \<Rightarrow> (Inl e, s)
         | Inr cat_bluff_mean \<Rightarrow>
        (case mean (call_rate opp) of
           Inl e \<Rightarrow> (Inl e, s)
         | Inr p_call_mean \<Rightarrow>
        (let dist = distance_from_next cmp nxt current_claim my_roll
         in case make_context current_claim round_index (cat_onehot cat)
                   cat_bluff_mean p_call_mean (truthful \<noteq> None) dist 0 of
              Inl e \<Rightarrow> (Inl e, s)
            | Inr ctx_call \<Rightarrow>
           (case make_context current_claim round_index (cat_onehot cat)
                   cat_bluff_mean p_call_mean (truthful \<noteq> None) dist 1 of
              Inl e \<Rightarrow> (Inl e, s)
            | Inr ctx_raise \<Rightarrow>
           (case linucb_choose (linalg_inv ext) (bandit s) [(CALL, ctx_call), (RAISE, ctx_raise)] of
              Inl e \<Rightarrow> (Inl e, s)
            | Inr (choice, scores) \<Rightarrow>
                if choice = CALL then
                  (case thompson (bluff_sample dr) (bluff_rate_get opp cat) of
                     Inl e \<Rightarrow> (Inl e, s)
                   | Inr p_bluff_sample \<Rightarrow>
                       (let ev_call = (2 * p_bluff_sample - 1) - call_risk_bias s
                        in if ev_call \<ge> - (15 / 100)
                           then (Inr CallBluff,
                                 s\<lparr>last_context := Some (opponent_id, CALL, ctx_call)\<rparr>)
                           else raise_move dr nxt opponent_id current_claim truthful opp ctx_raise s))
                else raise_move dr nxt opponent_id current_claim truthful opp ctx_raise s)))))"

text \<open>
  \<^verbatim>\<open>decide_action\<close>. The assertion fails unless the four rules are set; the coin of
  line 105 is read only when a truthful claim exists.
\<close>

definition decide_action ::
  "externals \<Rightarrow> draws \<Rightarrow> string \<Rightarrow> claim option \<Rightarrow> roll \<Rightarrow> int \<Rightarrow> engine
   \<Rightarrow> (error + decision) \<times> engine" where
  "decide_action ext dr opponent_id current_claim my_roll round_index s =
     (case compare_claims s of None \<Rightarrow> (Inl AssertionError, s) | Some cmp \<Rightarrow>
     (case next_higher_claim s of None \<Rightarrow> (Inl AssertionError, s) | Some nxt \<Rightarrow>
     (case categorize_claim s of None \<Rightarrow> (Inl AssertionError, s) | Some categ \<Rightarrow>
     (case claim_matches_roll s of None \<Rightarrow> (Inl AssertionError, s) | Some matches \<Rightarrow>
     (case current_claim of
        None \<Rightarrow>
          (let opening = canonical_claim_from_roll my_roll;
               opening = (if is_weak_truth categ opening
                          then pressure_jump_above nxt (jump_choice dr) (3, 2) else opening)
           in (Inr (Raise opening), s\<lparr>last_context := None\<rparr>))
      | Some cur \<Rightarrow>
          (let truthful = best_truthful_above cmp cur my_roll
           in case truthful of
                Some t \<Rightarrow>
                  if truth_coin dr < 65 / 100 + truth_bias s
                  then (Inr (Raise t), s\<lparr>last_context := None\<rparr>)
                  else bandit_move ext dr cmp nxt categ opponent_id cur my_roll round_index truthful s
              | None \<Rightarrow>
                  bandit_move ext dr cmp nxt categ opponent_id cur my_roll round_index truthful s))))))"

subsubsection \<open>The observers\<close>

definition observe_showdown ::
  "string \<Rightarrow> claim \<Rightarrow> roll \<Rightarrow> bool \<Rightarrow> engine \<Rightarrow> (error + unit) \<times> engine" where
  "observe_showdown opponent_id opponent_claim actual_opponent_roll caller_is_cpu s0 =
     (case claim_matches_roll s0 of None \<Rightarrow> (Inl TypeError, s0) | Some matches \<Rightarrow>
     (case categorize_claim s0 of None \<Rightarrow> (Inl TypeError, s0) | Some categ \<Rightarrow>
       (let was_bluff = \<not> matches opponent_claim actual_opponent_roll;
            cat = categ opponent_claim;
            (p, s) = profile_of opponent_id s0
        in (Inr (),
            s\<lparr>profiles := (profiles s)(opponent_id \<mapsto>
                 bluff_rate_setdefault_update cat was_bluff p)\<rparr>))))"

definition observe_our_raise_resolved ::
  "string \<Rightarrow> claim \<Rightarrow> roll \<Rightarrow> bool \<Rightarrow> engine \<Rightarrow> (error + unit) \<times> engine" where
  "observe_our_raise_resolved opponent_id cpu_claim cpu_roll opponent_called s0 =
     (let (p, s) = profile_of opponent_id s0
      in (Inr (),
          s\<lparr>profiles := (profiles s)(opponent_id \<mapsto>
               p\<lparr>call_rate := tracker_update opponent_called (call_rate p)\<rparr>)\<rparr>))"

definition observe_opponent_raise_size ::
  "string \<Rightarrow> claim \<Rightarrow> claim \<Rightarrow> engine \<Rightarrow> (error + unit) \<times> engine" where
  "observe_opponent_raise_size opponent_id current_claim new_claim s0 =
     (case compare_claims s0 of None \<Rightarrow> (Inl TypeError, s0) | Some cmp \<Rightarrow>
       (if cmp current_claim new_claim < 0 \<and> next_higher_claim s0 = None
        then (Inl TypeError, s0)
        else
          (let small = (step_distance cmp (case next_higher_claim s0 of Some nxt \<Rightarrow> nxt | None \<Rightarrow> id)
                          current_claim new_claim = 1);
               (p, s) = profile_of opponent_id s0
           in (Inr (),
               s\<lparr>profiles := (profiles s)(opponent_id \<mapsto>
                    p\<lparr>small_raise_pref := tracker_update small (small_raise_pref p)\<rparr>)\<rparr>))))"

definition observe_round_outcome :: "bool \<Rightarrow> engine \<Rightarrow> (error + unit) \<times> engine" where
  "observe_round_outcome did_cpu_win_round s =
     (case last_context s of
        None \<Rightarrow> (Inr (), s)
      | Some (opponent_id, act, ctx) \<Rightarrow>
          (let reward = (if did_cpu_win_round then 1 else - 1)
           in case update ctx reward (bandit s) of
                (Inl e, B) \<Rightarrow> (Inl e, s\<lparr>bandit := B\<rparr>)
              | (Inr u, B) \<Rightarrow> (Inr (), s\<lparr>bandit := B, last_context := None\<rparr>)))"

subsubsection \<open>state and load\_state\<close>

text \<open>
  The persisted state: the keys \<^verbatim>\<open>"bandit"\<close> and \<^verbatim>\<open>"profiles"\<close> may be missing
  from the dictionary given to \<^verbatim>\<open>load_state\<close>; \<^verbatim>\<open>state\<close> writes both.
\<close>

record profile_data =
  pd_bluff_rate :: "string \<rightharpoonup> real \<times> real"
  pd_call_rate :: "real \<times> real"
  pd_small_raise_pref :: "real \<times> real"

record bandit_data =
  bd_A :: matrix
  bd_b :: vector

record persisted =
  st_profiles :: "(string \<rightharpoonup> profile_data) option"
  st_bandit :: "bandit_data option"

definition dump_profile :: "OpponentProfile \<Rightarrow> profile_data" where
  "dump_profile p =
     \<lparr>pd_bluff_rate = (\<lambda>k. map_option (\<lambda>v. (alpha v, beta v)) (bluff_rate p k)),
      pd_call_rate = (alpha (call_rate p), beta (call_rate p)),
      pd_small_raise_pref = (alpha (small_raise_pref p), beta (small_raise_pref p))\<rparr>"

definition state :: "engine \<Rightarrow> persisted" where
  "state s =
     \<lparr>st_profiles = Some (\<lambda>opp_id. map_option dump_profile (profiles s opp_id)),
      st_bandit = Some \<lparr>bd_A = mat_A (bandit s), bd_b = vec_b (bandit s)\<rparr>\<rparr>"

text \<open>
  Lines 254 to 262: the profile starts as \<^verbatim>\<open>OpponentProfile()\<close>, then every listed
  category is stored (\<^verbatim>\<open>setdefault\<close>) and given the listed pair.
\<close>

definition load_profile :: "profile_data \<Rightarrow> OpponentProfile" where
  "load_profile data =
     (let prof = new_profile;
          prof = prof\<lparr>bluff_rate :=
                   (\<lambda>k. case pd_bluff_rate data k of
                          Some (a, b) \<Rightarrow> Some (mk_tracker a b)
                        | None \<Rightarrow> bluff_rate prof k)\<rparr>;
          prof = prof\<lparr>call_rate := mk_tracker (fst (pd_call_rate data)) (snd (pd_call_rate data))\<rparr>;
          prof = prof\<lparr>small_raise_pref :=
                   mk_tracker (fst (pd_small_raise_pref data)) (snd (pd_small_raise_pref data))\<rparr>
      in prof)"

text \<open>\<^verbatim>\<open>np.array(rows, dtype=float)\<close> raises ValueError on rows of different lengths.\<close>

definition rectangular :: "matrix \<Rightarrow> bool" where
  "rectangular M = list_all (\<lambda>row. length row = ncols M) M"

definition load_state :: "persisted \<Rightarrow> engine \<Rightarrow> (error + unit) \<times> engine" where
  "load_state st s0 =
     (case (case st_bandit st of
              None \<Rightarrow> Inr s0
            | Some bd \<Rightarrow>
                if rectangular (bd_A bd)
                then Inr (s0\<lparr>bandit := (bandit s0)\<lparr>mat_A := bd_A bd, vec_b := bd_b bd\<rparr>\<rparr>)
                else Inl ValueError) of
        Inl e \<Rightarrow> (Inl e, s0)
      | Inr s \<Rightarrow>
          (Inr (),
           s\<lparr>profiles :=
               (\<lambda>opp_id. case (case st_profiles st of None \<Rightarrow> Map.empty | Some ps \<Rightarrow> ps) opp_id of
                           Some data \<Rightarrow> Some (load_profile data)
                         | None \<Rightarrow> profiles s opp_id)\<rparr>))"

subsection \<open>Properties of matrices\<close>

definition square :: "nat \<Rightarrow> matrix \<Rightarrow> bool" where
  "square n M = (length M = n \<and> list_all (\<lambda>row. length row = n) M)"

definition symmetric :: "matrix \<Rightarrow> bool" where
  "symmetric M = (\<forall>i < length M. \<forall>j < length M. M ! i ! j = M ! j ! i)"

definition quad_form :: "matrix \<Rightarrow> vector \<Rightarrow> real" where
  "quad_form M v = dot v (matvec M v)"

definition positive_definite :: "matrix \<Rightarrow> bool" where
  "positive_definite M =
     (\<forall>v. length v = length M \<and> v \<noteq> zeros (length M) \<longrightarrow> 0 < quad_form M v)"

subsection \<open>Inputs for closed examples\<close>

text \<open>
  The claim grammar is injected by the caller and is no part of the module. This
  instance is the order of the dice game Mexican: the mixed rolls by rank
  (31 lowest, 65 highest), above them the doubles, above them 21.
\<close>

definition example_rank :: "claim \<Rightarrow> int" where
  "example_rank c =
     (if c = (2, 1) then 1000
      else if fst c = snd c then 100 + fst c
      else 10 * fst c + snd c)"

definition example_compare :: "claim \<Rightarrow> claim \<Rightarrow> int" where
  "example_compare a b = example_rank a - example_rank b"

definition example_next :: "claim \<Rightarrow> claim" where
  "example_next c =
     (if c = (2, 1) then (2, 1)
      else if fst c = snd c then (if fst c < 6 then (fst c + 1, fst c + 1) else (2, 1))
      else if snd c + 1 < fst c then (fst c, snd c + 1)
      else if fst c < 6 then (fst c + 1, 1)
      else (1, 1))"

definition example_categorize :: "claim \<Rightarrow> string" where
  "example_categorize c =
     (if c = (2, 1) then ''mexican'' else if fst c = snd c then ''double'' else ''normal'')"

text \<open>The same grammar with the label the module's comment suggests for 31 and 41.\<close>

definition example_categorize_special :: "claim \<Rightarrow> string" where
  "example_categorize_special c =
     (if c = (3, 1) \<or> c = (4, 1) then ''special'' else example_categorize c)"

definition example_matches :: "claim \<Rightarrow> roll \<Rightarrow> bool" where
  "example_matches c r = (canonical_claim_from_roll r = c)"

text \<open>The matrix inverse where it is evident: the identity is its own inverse.\<close>

definition example_inv :: "matrix \<Rightarrow> matrix option" where
  "example_inv M = (if M = eye (length M) then Some M else None)"

definition example_externals :: externals where
  "example_externals = \<lparr>linalg_inv = example_inv\<rparr>"

definition example_engine :: engine where
  "example_engine =
     set_rules example_compare example_next example_categorize example_matches (new_engine ''CPU'')"

definition example_draws :: draws where
  "example_draws =
     \<lparr>truth_coin = 9 / 10, bluff_sample = 1 / 2, raise_coin = 9 / 10, pressure_draw = 1 / 10,
      jump_choice = 0\<rparr>"

text \<open>Persisted states: the first omits two of the default categories.\<close>

definition example_profile_data :: profile_data where
  "example_profile_data =
     \<lparr>pd_bluff_rate = [''normal'' \<mapsto> (2, 5)], pd_call_rate = (3, 4), pd_small_raise_pref = (1, 1)\<rparr>"

definition example_persisted :: persisted where
  "example_persisted =
     \<lparr>st_profiles = Some [''ann'' \<mapsto> example_profile_data],
      st_bandit = Some \<lparr>bd_A = eye 9, bd_b = zeros 9\<rparr>\<rparr>"

definition example_full_profile_data :: profile_data where
  "example_full_profile_data =
     \<lparr>pd_bluff_rate = [''mexican'' \<mapsto> (1, 3), ''double'' \<mapsto> (2, 10), ''normal'' \<mapsto> (4, 1),
                       ''special'' \<mapsto> (1, 2)],
      pd_call_rate = (3, 4), pd_small_raise_pref = (1, 6)\<rparr>"

definition example_full_persisted :: persisted where
  "example_full_persisted =
     \<lparr>st_profiles = Some [''ann'' \<mapsto> example_full_profile_data],
      st_bandit = Some \<lparr>bd_A = [[2, 1], [1, 2]], bd_b = [1, - 1]\<rparr>\<rparr>"

text \<open>An engine with a pending context of the bandit's dimension.\<close>

definition example_context :: vector where
  "example_context = [0, 0, 1, 1 / 2, 1 / 3, 0, 0, 2, 1]"

definition example_pending_engine :: engine where
  "example_pending_engine = example_engine\<lparr>last_context := Some (''ann'', RAISE, example_context)\<rparr>"

text \<open>
  The sum of a square matrix and the outer product of a vector with itself, and the
  invariant of the design matrix: it dominates the identity.
\<close>

definition add_outer :: "vector \<Rightarrow> matrix \<Rightarrow> matrix" where
  "add_outer y M = map2 (\<lambda>yi row. map2 (\<lambda>yj a. a + yi * yj) y row) y M"

definition design_invariant :: "nat \<Rightarrow> matrix \<Rightarrow> bool" where
  "design_invariant n M =
     (square n M \<and> symmetric M \<and> (\<forall>v. length v = n \<longrightarrow> dot v v \<le> quad_form M v))"

text \<open>
  Engines for the closed examples of \<^verbatim>\<open>decide_action\<close>: one that has met the opponent
  bob, and one with a grammar that has a fourth category.
\<close>

definition example_known_engine :: engine where
  "example_known_engine =
     example_engine\<lparr>profiles := [''bob'' \<mapsto> new_profile\<lparr>call_rate := mk_tracker 4 2\<rparr>]\<rparr>"

definition example_special_engine :: engine where
  "example_special_engine =
     (set_rules example_compare example_next example_categorize_special example_matches
        (new_engine ''CPU''))\<lparr>profiles := [''bob'' \<mapsto> new_profile]\<rparr>"

section \<open>Properties\<close>

subsection \<open>BetaTracker\<close>

lemma tracker_updates_alpha:
  "alpha (tracker_updates us t) = alpha t + real (length (filter id us))"
  unfolding tracker_updates_def
  by (induction us arbitrary: t) (simp_all add: tracker_update_def)

lemma tracker_updates_beta:
  "beta (tracker_updates us t) = beta t + real (length (filter Not us))"
  unfolding tracker_updates_def
  by (induction us arbitrary: t) (simp_all add: tracker_update_def)

lemma tracker_updates_append:
  "tracker_updates (us @ vs) t = tracker_updates vs (tracker_updates us t)"
  by (simp add: tracker_updates_def)

lemma tracker_updates_Cons:
  "tracker_updates (u # us) t = tracker_updates us (tracker_update u t)"
  by (simp add: tracker_updates_def)

lemma ratio_mono:
  fixes a b a' b' :: real
  assumes "0 < a" "0 < b" "a \<le> a'" "0 < b'" "b' \<le> b"
  shows "a / (a + b) \<le> a' / (a' + b')"
proof -
  have "a * (a' + b') \<le> a' * (a + b)"
  proof -
    have "a * b' \<le> a * b" using assms by (simp add: mult_left_mono)
    also have "\<dots> \<le> a' * b" using assms by (simp add: mult_right_mono)
    finally show ?thesis by (simp add: algebra_simps)
  qed
  moreover have "0 < a + b" "0 < a' + b'" using assms by linarith+
  ultimately show ?thesis by (simp add: frac_le_eq mult.commute pos_divide_le_eq field_simps)
qed

lemma tracker_updates_positive:
  assumes "0 < alpha t" and "0 < beta t"
  shows "0 < alpha (tracker_updates us t)" and "0 < beta (tracker_updates us t)"
  using assms by (simp_all add: tracker_updates_alpha tracker_updates_beta add_pos_nonneg)

lemma mean_positive:
  assumes "0 < alpha t" and "0 < beta t"
  shows "mean t = Inr (alpha t / (alpha t + beta t))"
  using assms by (simp add: mean_def)

lemma tracker_updates_mono:
  assumes "0 < alpha t" and "0 < beta t"
    and "alpha t \<le> alpha t'" and "0 < beta t'" and "beta t' \<le> beta t"
  shows "alpha (tracker_updates vs t) / (alpha (tracker_updates vs t) + beta (tracker_updates vs t))
       \<le> alpha (tracker_updates vs t') / (alpha (tracker_updates vs t') + beta (tracker_updates vs t'))"
proof (rule ratio_mono)
  show "0 < alpha (tracker_updates vs t)" "0 < beta (tracker_updates vs t)"
    using assms by (simp_all add: tracker_updates_positive)
  show "alpha (tracker_updates vs t) \<le> alpha (tracker_updates vs t')"
    using assms by (simp add: tracker_updates_alpha)
  show "0 < beta (tracker_updates vs t')"
    using assms by (simp add: tracker_updates_beta add_pos_nonneg)
  show "beta (tracker_updates vs t') \<le> beta (tracker_updates vs t)"
    using assms by (simp add: tracker_updates_beta)
qed

text \<open>
  C8. From positive counters, after any sequence of updates the counters are the initial
  ones plus the numbers of true and of false updates, \<open>mean\<close> returns (without error)
  exactly successCount / (successCount + failureCount), replacing one update(false) of a
  sequence by update(true) never decreases the mean, one more update(true) does not
  decrease the mean and one more update(false) does not increase it.
\<close>

theorem tracker_mean_exact_and_monotone:
  assumes "0 < alpha t" and "0 < beta t"
  shows "alpha (tracker_updates us t) = alpha t + real (length (filter id us))
       \<and> beta (tracker_updates us t) = beta t + real (length (filter Not us))
       \<and> mean (tracker_updates us t)
           = Inr (alpha (tracker_updates us t)
                  / (alpha (tracker_updates us t) + beta (tracker_updates us t)))
       \<and> (\<exists>m m'. mean (tracker_updates (us @ False # vs) t) = Inr m
                \<and> mean (tracker_updates (us @ True # vs) t) = Inr m' \<and> m \<le> m')
       \<and> (\<exists>m m'. mean (tracker_updates us t) = Inr m
                \<and> mean (tracker_update True (tracker_updates us t)) = Inr m' \<and> m \<le> m')
       \<and> (\<exists>m m'. mean (tracker_updates us t) = Inr m
                \<and> mean (tracker_update False (tracker_updates us t)) = Inr m' \<and> m' \<le> m)"
proof -
  let ?u = "tracker_updates us t"
  have pos: "0 < alpha ?u" "0 < beta ?u"
    using assms by (rule tracker_updates_positive)+
  have m: "mean ?u = Inr (alpha ?u / (alpha ?u + beta ?u))"
    using pos by (rule mean_positive)
  let ?f = "tracker_update False ?u" and ?t = "tracker_update True ?u"
  have f: "alpha ?f = alpha ?u" "beta ?f = beta ?u + 1"
    and t: "alpha ?t = alpha ?u + 1" "beta ?t = beta ?u"
    by (simp_all add: tracker_update_def)
  have posf: "0 < alpha ?f" "0 < beta ?f" and post: "0 < alpha ?t" "0 < beta ?t"
    using pos f t by simp_all
  have swap: "\<exists>m m'. mean (tracker_updates (us @ False # vs) t) = Inr m
                \<and> mean (tracker_updates (us @ True # vs) t) = Inr m' \<and> m \<le> m'"
  proof -
    have e: "tracker_updates (us @ False # vs) t = tracker_updates vs ?f"
      "tracker_updates (us @ True # vs) t = tracker_updates vs ?t"
      by (simp_all add: tracker_updates_append tracker_updates_Cons)
    have "mean (tracker_updates vs ?f)
            = Inr (alpha (tracker_updates vs ?f)
                   / (alpha (tracker_updates vs ?f) + beta (tracker_updates vs ?f)))"
      using posf by (intro mean_positive tracker_updates_positive)
    moreover have "mean (tracker_updates vs ?t)
            = Inr (alpha (tracker_updates vs ?t)
                   / (alpha (tracker_updates vs ?t) + beta (tracker_updates vs ?t)))"
      using post by (intro mean_positive tracker_updates_positive)
    moreover have "alpha (tracker_updates vs ?f)
                   / (alpha (tracker_updates vs ?f) + beta (tracker_updates vs ?f))
                 \<le> alpha (tracker_updates vs ?t)
                   / (alpha (tracker_updates vs ?t) + beta (tracker_updates vs ?t))"
      using posf post f t by (intro tracker_updates_mono) simp_all
    ultimately show ?thesis by (simp add: e)
  qed
  have up: "\<exists>m m'. mean ?u = Inr m \<and> mean ?t = Inr m' \<and> m \<le> m'"
  proof -
    have "alpha ?u / (alpha ?u + beta ?u) \<le> alpha ?t / (alpha ?t + beta ?t)"
      using pos post t by (intro ratio_mono) simp_all
    then show ?thesis using m mean_positive [OF post] by simp
  qed
  have down: "\<exists>m m'. mean ?u = Inr m \<and> mean ?f = Inr m' \<and> m' \<le> m"
  proof -
    have "alpha ?f / (alpha ?f + beta ?f) \<le> alpha ?u / (alpha ?u + beta ?u)"
      using pos posf f by (intro ratio_mono) simp_all
    then show ?thesis using m mean_positive [OF posf] by simp
  qed
  show ?thesis
    using m swap up down
    by (simp only: tracker_updates_alpha tracker_updates_beta simp_thms)
qed

theorem tracker_mean_exact_and_monotone_witness:
  "0 < alpha (mk_tracker 1 2) \<and> 0 < beta (mk_tracker 1 2)
   \<and> alpha (tracker_updates [True, False, True] (mk_tracker 1 2)) = 3
   \<and> beta (tracker_updates [True, False, True] (mk_tracker 1 2)) = 3
   \<and> mean (tracker_updates [True, False, True] (mk_tracker 1 2)) = Inr (1 / 2)
   \<and> mean (tracker_updates ([True, False, True] @ False # [True]) (mk_tracker 1 2)) = Inr (1 / 2)
   \<and> mean (tracker_updates ([True, False, True] @ True # [True]) (mk_tracker 1 2)) = Inr (5 / 8)"
proof -
  have h: "0 < alpha (mk_tracker 1 2)" "0 < beta (mk_tracker 1 2)"
    by (simp_all add: mk_tracker_def)
  show ?thesis
    using h tracker_mean_exact_and_monotone [OF h, of "[True, False, True]" "[True]"]
    by (simp add: mk_tracker_def tracker_updates_def tracker_update_def mean_def)
qed

subsection \<open>load\_state and state\<close>

lemma length_eye: "length (eye n) = n"
  by (simp add: eye_def)

lemma ncols_eye: "ncols (eye n) = n"
proof (cases n)
  case 0
  then show ?thesis by (simp add: eye_def ncols_def)
next
  case (Suc m)
  have "[0..<Suc m] = 0 # [Suc 0..<Suc m]" by (simp add: upt_conv_Cons)
  then show ?thesis unfolding Suc eye_def ncols_def by simp
qed

lemma rectangular_eye: "rectangular (eye n)"
  unfolding rectangular_def ncols_eye by (simp add: eye_def list_all_iff)

lemma load_profile_bluff_rate:
  "bluff_rate (load_profile data) k =
     (case pd_bluff_rate data k of Some (a, b) \<Rightarrow> Some (mk_tracker a b) | None \<Rightarrow> default_bluff_rate k)"
  by (simp add: load_profile_def new_profile_def Let_def split: option.splits)

lemma dom_default_bluff_rate: "dom default_bluff_rate = {''mexican'', ''double'', ''normal''}"
  by (auto simp: default_bluff_rate_def split: if_splits)

lemma load_state_profiles:
  assumes "fst (load_state st s0) = Inr ()"
  shows "profiles (snd (load_state st s0)) opp =
     (case (case st_profiles st of None \<Rightarrow> Map.empty | Some ps \<Rightarrow> ps) opp of
        Some data \<Rightarrow> Some (load_profile data) | None \<Rightarrow> profiles s0 opp)"
  using assms by (auto simp: load_state_def split: option.splits if_splits)

lemma dump_load_profile:
  assumes "{''mexican'', ''double'', ''normal''} \<subseteq> dom (pd_bluff_rate data)"
  shows "dump_profile (load_profile data) = data"
proof -
  have "(\<lambda>k. map_option (\<lambda>v. (alpha v, beta v)) (bluff_rate (load_profile data) k))
          = pd_bluff_rate data"
  proof (rule ext)
    fix k
    show "map_option (\<lambda>v. (alpha v, beta v)) (bluff_rate (load_profile data) k)
            = pd_bluff_rate data k"
    proof (cases "pd_bluff_rate data k")
      case None
      then have "k \<notin> dom default_bluff_rate"
        using assms unfolding dom_default_bluff_rate by (auto simp: dom_def)
      then have "default_bluff_rate k = None" by (simp add: dom_def)
      then show ?thesis using None by (simp add: load_profile_bluff_rate)
    next
      case (Some ab)
      then show ?thesis
        by (cases ab) (simp add: load_profile_bluff_rate mk_tracker_def)
    qed
  qed
  moreover have "call_rate (load_profile data)
                   = mk_tracker (fst (pd_call_rate data)) (snd (pd_call_rate data))"
    and "small_raise_pref (load_profile data)
                   = mk_tracker (fst (pd_small_raise_pref data)) (snd (pd_small_raise_pref data))"
    by (simp_all add: load_profile_def Let_def)
  ultimately show ?thesis
    by (simp add: dump_profile_def mk_tracker_def)
qed

text \<open>
  C1 (amended). When \<^verbatim>\<open>load_state\<close> returns, the profile it stores for an opponent
  of the given state holds a tracker for every category listed for that opponent, with
  the listed pair, and for the three default categories mexican, double and normal: a
  default category the state does not list is present with its default prior.
\<close>

theorem load_state_profile_categories:
  assumes "fst (load_state st s0) = Inr ()"
    and "st_profiles st = Some ps" and "ps opp = Some data"
  shows "\<exists>p. profiles (snd (load_state st s0)) opp = Some p
       \<and> dom (bluff_rate p) = dom (pd_bluff_rate data) \<union> {''mexican'', ''double'', ''normal''}
       \<and> (\<forall>k. bluff_rate p k =
              (case pd_bluff_rate data k of
                 Some (a, b) \<Rightarrow> Some (mk_tracker a b)
               | None \<Rightarrow> bluff_rate new_profile k))"
proof -
  have p: "profiles (snd (load_state st s0)) opp = Some (load_profile data)"
    using assms by (simp add: load_state_profiles)
  have d: "dom (bluff_rate (load_profile data))
             = dom (pd_bluff_rate data) \<union> {''mexican'', ''double'', ''normal''}"
    unfolding dom_default_bluff_rate [symmetric]
    by (auto simp: load_profile_bluff_rate dom_def split: option.splits)
  show ?thesis using p d by (simp add: load_profile_bluff_rate new_profile_def split: option.splits)
qed

theorem load_state_profile_categories_witness:
  "\<exists>p. profiles (snd (load_state example_persisted (new_engine ''CPU''))) ''ann'' = Some p
     \<and> dom (bluff_rate p) = {''normal'', ''mexican'', ''double''}
     \<and> bluff_rate p ''normal'' = Some (mk_tracker 2 5)
     \<and> bluff_rate p ''double'' = Some (mk_tracker 1 2)"
proof -
  have h1: "fst (load_state example_persisted (new_engine ''CPU'')) = Inr ()"
    by (simp add: load_state_def example_persisted_def rectangular_eye)
  have h2: "st_profiles example_persisted = Some [''ann'' \<mapsto> example_profile_data]"
    by (simp add: example_persisted_def)
  have h3: "[''ann'' \<mapsto> example_profile_data] ''ann'' = Some example_profile_data"
    by simp
  have d: "dom (pd_bluff_rate example_profile_data) = {''normal''}"
    by (simp add: example_profile_data_def)
  have n: "pd_bluff_rate example_profile_data ''normal'' = Some (2, 5)"
    and m: "pd_bluff_rate example_profile_data ''double'' = None"
    by (simp_all add: example_profile_data_def)
  have b: "bluff_rate new_profile ''double'' = Some (mk_tracker 1 2)"
    by (simp add: new_profile_def default_bluff_rate_def)
  from load_state_profile_categories [OF h1 h2 h3] obtain p
    where "profiles (snd (load_state example_persisted (new_engine ''CPU''))) ''ann'' = Some p
       \<and> dom (bluff_rate p)
           = dom (pd_bluff_rate example_profile_data) \<union> {''mexican'', ''double'', ''normal''}
       \<and> (\<forall>k. bluff_rate p k =
              (case pd_bluff_rate example_profile_data k of
                 Some (a, b) \<Rightarrow> Some (mk_tracker a b)
               | None \<Rightarrow> bluff_rate new_profile k))" ..
  then have p: "profiles (snd (load_state example_persisted (new_engine ''CPU''))) ''ann'' = Some p"
    and dm: "dom (bluff_rate p)
           = dom (pd_bluff_rate example_profile_data) \<union> {''mexican'', ''double'', ''normal''}"
    and k: "\<forall>k. bluff_rate p k =
              (case pd_bluff_rate example_profile_data k of
                 Some (a, b) \<Rightarrow> Some (mk_tracker a b)
               | None \<Rightarrow> bluff_rate new_profile k)"
    by (rule conjunct1, rule conjunct2 [THEN conjunct1], rule conjunct2 [THEN conjunct2])
  have "dom (bluff_rate p) = {''normal'', ''mexican'', ''double''}"
    unfolding dm d by (simp add: insert_commute)
  moreover have "bluff_rate p ''normal'' = Some (mk_tracker 2 5)"
    using k [rule_format, of "''normal''"] by (simp add: n)
  moreover have "bluff_rate p ''double'' = Some (mk_tracker 1 2)"
    using k [rule_format, of "''double''"] by (simp add: m b)
  ultimately show ?thesis using p by simp
qed

text \<open>
  C1 as stated fails: the state lists only normal for the opponent, and the loaded
  profile has a tracker for mexican, with the default prior (1, 3).
\<close>

theorem load_state_absent_category_counterexample:
  "pd_bluff_rate example_profile_data ''mexican'' = None
   \<and> map_option (\<lambda>p. bluff_rate p ''mexican'')
        (profiles (snd (load_state example_persisted (new_engine ''CPU''))) ''ann'')
       = Some (Some (mk_tracker 1 3))"
  by (simp add: load_state_def example_persisted_def rectangular_eye load_profile_def
      example_profile_data_def new_profile_def default_bluff_rate_def)

text \<open>
  C2 (amended). For a state with both keys, a matrix with rows of one length, and
  profiles that each list at least mexican, double and normal, loaded into an engine
  with no profile for an opponent outside the state, \<^verbatim>\<open>load_state\<close> returns and
  \<^verbatim>\<open>state\<close> then yields the state that was loaded.
\<close>

theorem load_then_state_roundtrip:
  assumes "st_bandit st = Some bd" and "rectangular (bd_A bd)"
    and "st_profiles st = Some ps"
    and "\<forall>opp data. ps opp = Some data
           \<longrightarrow> {''mexican'', ''double'', ''normal''} \<subseteq> dom (pd_bluff_rate data)"
    and "dom (profiles s0) \<subseteq> dom ps"
  shows "fst (load_state st s0) = Inr () \<and> state (snd (load_state st s0)) = st"
proof -
  have l: "load_state st s0 =
    (Inr (), s0\<lparr>bandit := (bandit s0)\<lparr>mat_A := bd_A bd, vec_b := bd_b bd\<rparr>,
               profiles := (\<lambda>opp_id. case ps opp_id of
                              Some data \<Rightarrow> Some (load_profile data)
                            | None \<Rightarrow> profiles s0 opp_id)\<rparr>)"
    using assms(1-3) by (simp add: load_state_def cong: option.case_cong)
  have "(\<lambda>opp_id. map_option dump_profile
            (case ps opp_id of Some data \<Rightarrow> Some (load_profile data)
                             | None \<Rightarrow> profiles s0 opp_id)) = ps"
  proof (rule ext)
    fix opp
    show "map_option dump_profile
            (case ps opp of Some data \<Rightarrow> Some (load_profile data)
                          | None \<Rightarrow> profiles s0 opp) = ps opp"
    proof (cases "ps opp")
      case None
      then have "profiles s0 opp = None" using assms(5) by (auto simp: dom_def)
      then show ?thesis using None by simp
    next
      case (Some data)
      then show ?thesis using assms(4) by (simp add: dump_load_profile)
    qed
  qed
  moreover have "\<lparr>bd_A = bd_A bd, bd_b = bd_b bd\<rparr> = bd" by simp
  ultimately have "state (snd (load_state st s0)) = \<lparr>st_profiles = Some ps, st_bandit = Some bd\<rparr>"
    by (simp add: l state_def)
  also have "\<dots> = st" using assms(1,3) by simp
  finally show ?thesis by (simp add: l)
qed

theorem load_then_state_roundtrip_witness:
  "fst (load_state example_full_persisted (new_engine ''CPU'')) = Inr ()
   \<and> state (snd (load_state example_full_persisted (new_engine ''CPU''))) = example_full_persisted"
proof -
  have h1: "st_bandit example_full_persisted = Some \<lparr>bd_A = [[2, 1], [1, 2]], bd_b = [1, - 1]\<rparr>"
    by (simp add: example_full_persisted_def)
  have h2: "rectangular (bd_A \<lparr>bd_A = [[2, 1], [1, 2]], bd_b = [1, - 1]\<rparr>)"
    by (simp add: rectangular_def ncols_def)
  have h3: "st_profiles example_full_persisted = Some [''ann'' \<mapsto> example_full_profile_data]"
    by (simp add: example_full_persisted_def)
  have h4: "\<forall>opp data. [''ann'' \<mapsto> example_full_profile_data] opp = Some data
           \<longrightarrow> {''mexican'', ''double'', ''normal''} \<subseteq> dom (pd_bluff_rate data)"
    by (simp add: example_full_profile_data_def)
  have h5: "dom (profiles (new_engine ''CPU'')) \<subseteq> dom [''ann'' \<mapsto> example_full_profile_data]"
    by (simp add: new_engine_def)
  show ?thesis by (rule load_then_state_roundtrip [OF h1 h2 h3 h4 h5])
qed

text \<open>
  C2 as stated fails: a state that lists only normal for the opponent is not what
  \<^verbatim>\<open>state\<close> yields after loading it into a fresh engine.
\<close>

theorem load_then_state_counterexample:
  "state (snd (load_state example_persisted (new_engine ''CPU''))) \<noteq> example_persisted"
proof
  assume "state (snd (load_state example_persisted (new_engine ''CPU''))) = example_persisted"
  then have "st_profiles (state (snd (load_state example_persisted (new_engine ''CPU''))))
               = st_profiles example_persisted" by simp
  then have "map_option (\<lambda>f. map_option (\<lambda>d. pd_bluff_rate d ''mexican'') (f ''ann''))
                (st_profiles (state (snd (load_state example_persisted (new_engine ''CPU'')))))
             = map_option (\<lambda>f. map_option (\<lambda>d. pd_bluff_rate d ''mexican'') (f ''ann''))
                (st_profiles example_persisted)" by simp
  then show False
    by (simp add: state_def load_state_def example_persisted_def rectangular_eye load_profile_def
        example_profile_data_def new_profile_def default_bluff_rate_def dump_profile_def)
qed

subsection \<open>The opening move\<close>

lemma apply_steps_funpow: "apply_steps nxt n c = (nxt ^^ n) c"
  by (induction n arbitrary: c) (simp_all add: funpow_swap1)

lemma apply_steps_1: "apply_steps nxt 1 c = nxt c"
  by simp

lemma apply_steps_2: "apply_steps nxt 2 c = nxt (nxt c)"
  by (simp add: numeral_2_eq_2)

lemma apply_steps_3: "apply_steps nxt 3 c = nxt (nxt (nxt c))"
  by (simp add: numeral_3_eq_3)

lemma pressure_jump_above_cases:
  "pressure_jump_above nxt k c = (if k mod 3 = 2 then nxt (nxt c) else nxt c)"
proof -
  consider "k mod 3 = 0" | "k mod 3 = 1" | "k mod 3 = 2" by arith
  then show ?thesis
  proof cases
    case 1
    then show ?thesis by (simp add: pressure_jump_above_def)
  next
    case 2
    then show ?thesis by (simp add: pressure_jump_above_def)
  next
    case 3
    then show ?thesis by (simp add: pressure_jump_above_def apply_steps_2)
  qed
qed

text \<open>
  C3 (amended). With the four rules set and a grammar in which (4, 2) is normal,
  \<^verbatim>\<open>decide_action(opponent, None, (4, 2))\<close> returns, for every draw, a raise whose
  claim is the next higher claim applied to the fixed baseline (3, 2) once (two of the
  three positions \<^verbatim>\<open>random.choice\<close> can pick) or twice (the third), whatever the
  roll's own claim is, and clears the pending context.
\<close>

theorem opening_weak_roll:
  assumes "compare_claims s = Some cmp" and "next_higher_claim s = Some nxt"
    and "categorize_claim s = Some categ" and "claim_matches_roll s = Some matches"
    and "categ (4, 2) = ''normal''"
  shows "decide_action ext dr opponent_id None (4, 2) round_index s
         = (Inr (Raise (if jump_choice dr mod 3 = 2 then nxt (nxt (3, 2)) else nxt (3, 2))),
            s\<lparr>last_context := None\<rparr>)"
  using assms
  by (simp add: decide_action_def canonical_claim_from_roll_def is_weak_truth_def
      pressure_jump_above_cases)

theorem opening_weak_roll_witness:
  "decide_action example_externals (example_draws\<lparr>jump_choice := 5\<rparr>) ''ann'' None (4, 2) 0
     example_engine
   = (Inr (Raise (4, 2)), example_engine\<lparr>last_context := None\<rparr>)"
proof -
  have h: "compare_claims example_engine = Some example_compare"
    "next_higher_claim example_engine = Some example_next"
    "categorize_claim example_engine = Some example_categorize"
    "claim_matches_roll example_engine = Some example_matches"
    by (simp_all add: example_engine_def set_rules_def)
  have c: "example_categorize (4, 2) = ''normal''"
    by (simp add: example_categorize_def)
  show ?thesis
    using opening_weak_roll [OF h c, of example_externals "example_draws\<lparr>jump_choice := 5\<rparr>" "''ann''" 0]
    by (simp add: example_next_def)
qed

text \<open>
  C3 as stated fails in the order of the game: one step above (3, 2) is (4, 1), which is
  below the truthful claim (4, 2).
\<close>

theorem opening_not_above_truthful_counterexample:
  "example_categorize (4, 2) = ''normal''
   \<and> fst (decide_action example_externals example_draws ''ann'' None (4, 2) 0 example_engine)
       = Inr (Raise (4, 1))
   \<and> \<not> 0 < example_compare (4, 1) (4, 2)"
proof -
  have "pressure_jump_above example_next (jump_choice example_draws) (3, 2) = (4, 1)"
    by (simp add: pressure_jump_above_cases example_draws_def example_next_def)
  then show ?thesis
    by (simp add: decide_action_def example_engine_def set_rules_def new_engine_def
      canonical_claim_from_roll_def is_weak_truth_def
      example_categorize_def example_compare_def example_rank_def)
qed

text \<open>
  The same holds in every grammar that ranks (3, 2) below (4, 2) and whose next higher
  claim is a successor (it does not jump over a claim above its argument).
\<close>

lemma successor_step_not_above:
  fixes cmp :: "claim \<Rightarrow> claim \<Rightarrow> int" and nxt :: "claim \<Rightarrow> claim"
  assumes "cmp (3, 2) (4, 2) < 0"
    and "\<And>c d. cmp c d < 0 \<Longrightarrow> cmp (nxt c) d \<le> 0"
  shows "\<not> 0 < cmp (nxt (3, 2)) (4, 2)"
  using assms(2) [OF assms(1)] by simp

subsection \<open>The pressure claim\<close>

lemma pressure_steps_eq:
  "pressure_steps True p r =
     1 + (if p > 55 / 100 \<and> r < 50 / 100 then 1 else 0)
       + (if p > 65 / 100 \<and> r < 25 / 100 then 1 else 0)"
  by (simp add: pressure_steps_def Let_def)

text \<open>
  C7. With bluffing allowed (as \<^verbatim>\<open>decide_action\<close> always calls it), the pressure
  claim is the next higher claim applied to the current claim one to three times. The
  number of steps comes from the call-rate mean \<open>p\<close> and the single draw \<open>r\<close>: a second
  step is taken exactly when \<open>p > 0.55\<close> and \<open>r < 0.50\<close>, a third exactly when
  \<open>p > 0.65\<close> and \<open>r < 0.25\<close>. Both tests read the same \<open>r\<close>, so for \<open>p > 0.65\<close>
  the draws in [0, 1) that give three, two and one steps are the intervals [0, 1/4),
  [1/4, 1/2) and [1/2, 1), of lengths 0.25, 0.25 and 0.50.
\<close>

theorem pick_pressure_claim_steps:
  assumes "mean (call_rate opp) = Inr p"
  shows "pick_pressure_claim nxt r c True opp
           = Inr ((nxt ^^ pressure_steps True p r) c)
       \<and> pressure_steps True p r =
           1 + (if p > 55 / 100 \<and> r < 50 / 100 then 1 else 0)
             + (if p > 65 / 100 \<and> r < 25 / 100 then 1 else 0)
       \<and> (pressure_steps True p r \<ge> 2 \<longleftrightarrow> p > 55 / 100 \<and> r < 50 / 100)
       \<and> (pressure_steps True p r = 3 \<longleftrightarrow> p > 65 / 100 \<and> r < 25 / 100)
       \<and> 1 \<le> pressure_steps True p r \<and> pressure_steps True p r \<le> 3
       \<and> (p > 65 / 100 \<longrightarrow>
            {r. 0 \<le> r \<and> r < 1 \<and> pressure_steps True p r = 3} = {0..<1 / 4}
          \<and> {r. 0 \<le> r \<and> r < 1 \<and> pressure_steps True p r = 2} = {1 / 4..<1 / 2}
          \<and> {r. 0 \<le> r \<and> r < 1 \<and> pressure_steps True p r = 1} = {1 / 2..<1})"
proof -
  have a: "pick_pressure_claim nxt r c True opp = Inr ((nxt ^^ pressure_steps True p r) c)"
    using assms by (simp add: pick_pressure_claim_def apply_steps_funpow)
  have b: "pressure_steps True p r \<ge> 2 \<longleftrightarrow> p > 55 / 100 \<and> r < 50 / 100"
    by (auto simp: pressure_steps_eq)
  have c: "pressure_steps True p r = 3 \<longleftrightarrow> p > 65 / 100 \<and> r < 25 / 100"
    by (auto simp: pressure_steps_eq)
  have d: "1 \<le> pressure_steps True p r" "pressure_steps True p r \<le> 3"
    by (simp_all add: pressure_steps_eq)
  have e: "p > 65 / 100 \<longrightarrow>
            {r. 0 \<le> r \<and> r < 1 \<and> pressure_steps True p r = 3} = {0..<1 / 4}
          \<and> {r. 0 \<le> r \<and> r < 1 \<and> pressure_steps True p r = 2} = {1 / 4..<1 / 2}
          \<and> {r. 0 \<le> r \<and> r < 1 \<and> pressure_steps True p r = 1} = {1 / 2..<1}"
    by (auto simp: pressure_steps_eq)
  show ?thesis
    by (intro conjI a b c d e pressure_steps_eq)
qed


theorem pick_pressure_claim_steps_witness:
  "pick_pressure_claim example_next (1 / 10) (3, 2) True \<lparr>bluff_rate = default_bluff_rate,
      call_rate = mk_tracker 3 1, small_raise_pref = mk_tracker 1 1\<rparr> = Inr (4, 3)
   \<and> pick_pressure_claim example_next (3 / 10) (3, 2) True \<lparr>bluff_rate = default_bluff_rate,
      call_rate = mk_tracker 3 1, small_raise_pref = mk_tracker 1 1\<rparr> = Inr (4, 2)
   \<and> pick_pressure_claim example_next (7 / 10) (3, 2) True \<lparr>bluff_rate = default_bluff_rate,
      call_rate = mk_tracker 3 1, small_raise_pref = mk_tracker 1 1\<rparr> = Inr (4, 1)
   \<and> {r. 0 \<le> r \<and> r < 1 \<and> pressure_steps True (3 / 4) r = 2} = {1 / 4..<1 / 2}"
proof -
  let ?opp = "\<lparr>bluff_rate = default_bluff_rate,
      call_rate = mk_tracker 3 1, small_raise_pref = mk_tracker 1 1\<rparr>"
  have h: "mean (call_rate ?opp) = Inr (3 / 4)"
    by (simp add: mean_def mk_tracker_def)
  have k: "pressure_steps True (3 / 4) (1 / 10) = 3" "pressure_steps True (3 / 4) (3 / 10) = 2"
    "pressure_steps True (3 / 4) (7 / 10) = 1"
    by (simp_all add: pressure_steps_def)
  have n: "(example_next ^^ 3) (3, 2) = (4, 3)" "(example_next ^^ 2) (3, 2) = (4, 2)"
    "(example_next ^^ 1) (3, 2) = (4, 1)"
    by (simp_all add: eval_nat_numeral example_next_def)
  have p: "(65 :: real) / 100 < 3 / 4" by simp
  have "pick_pressure_claim example_next (1 / 10) (3, 2) True ?opp = Inr (4, 3)"
    using pick_pressure_claim_steps [OF h, of example_next "1 / 10" "(3, 2)", THEN conjunct1]
    unfolding k n .
  moreover have "pick_pressure_claim example_next (3 / 10) (3, 2) True ?opp = Inr (4, 2)"
    using pick_pressure_claim_steps [OF h, of example_next "3 / 10" "(3, 2)", THEN conjunct1]
    unfolding k n .
  moreover have "pick_pressure_claim example_next (7 / 10) (3, 2) True ?opp = Inr (4, 1)"
    using pick_pressure_claim_steps [OF h, of example_next "7 / 10" "(3, 2)", THEN conjunct1]
    unfolding k n .
  moreover have "{r. 0 \<le> r \<and> r < 1 \<and> pressure_steps True (3 / 4) r = 2} = {1 / 4..<1 / 2}"
    using pick_pressure_claim_steps [OF h, of example_next "1 / 10" "(3, 2)"] p by blast
  ultimately show ?thesis by (intro conjI)
qed

subsection \<open>observe\_round\_outcome\<close>

lemma eye_nonempty: "0 < n \<Longrightarrow> eye n \<noteq> []"
  using length_eye [of n] by auto

lemma broadcast_vec_same: "length x = n \<Longrightarrow> broadcast_vec n x = Some x"
  by (simp add: broadcast_vec_def)

lemma length_zeros: "length (zeros n) = n"
  by (simp add: zeros_def)

lemma map2_zeros:
  "length x = n \<Longrightarrow> map2 (\<lambda>vi xi. vi + r * xi) (zeros n) x = map (\<lambda>xi. r * xi) x"
  unfolding zeros_def
  by (induction x arbitrary: n) auto

lemma update_fresh:
  assumes "length x = n" and "0 < n"
  shows "update x r (new_LinUCB n a)
     = (Inr (), \<lparr>dim = n, ucb_alpha = a,
          mat_A = map2 (\<lambda>xi row. map2 (\<lambda>xj a. a + xi * xj) x row) x (eye n),
          vec_b = map (\<lambda>xi. r * xi) x\<rparr>)"
  using assms
  by (simp add: update_def iadd_outer_def iadd_scaled_def new_LinUCB_def broadcast_vec_same
      length_eye ncols_eye eye_nonempty map2_zeros length_zeros)

lemma update_example_context:
  "update example_context r (new_LinUCB 9 a)
     = (Inr (), \<lparr>dim = 9, ucb_alpha = a,
          mat_A = map2 (\<lambda>xi row. map2 (\<lambda>xj a. a + xi * xj) example_context row)
                    example_context (eye 9),
          vec_b = map (\<lambda>xi. r * xi) example_context\<rparr>)"
  by (rule update_fresh) (simp_all add: example_context_def)

text \<open>
  C5. With an empty pending slot \<^verbatim>\<open>observe_round_outcome\<close> returns without error and
  leaves the engine as it is. With a pending context it runs the bandit's
  \<^verbatim>\<open>update\<close> on that context with reward 1 when the engine won and -1 otherwise, and
  changes nothing but the bandit and the pending slot; when the update returns, the call
  returns and the pending slot is empty.
\<close>

theorem observe_round_outcome_pending:
  "(last_context s = None \<longrightarrow> observe_round_outcome did_cpu_win_round s = (Inr (), s))
   \<and> (last_context s = Some (opponent_id, act, ctx) \<longrightarrow>
        bandit (snd (observe_round_outcome did_cpu_win_round s))
          = snd (update ctx (if did_cpu_win_round then 1 else - 1) (bandit s))
      \<and> (snd (observe_round_outcome did_cpu_win_round s))\<lparr>bandit := bandit s,
             last_context := last_context s\<rparr> = s
      \<and> (fst (update ctx (if did_cpu_win_round then 1 else - 1) (bandit s)) = Inr ()
          \<longrightarrow> observe_round_outcome did_cpu_win_round s
              = (Inr (), s\<lparr>bandit := snd (update ctx (if did_cpu_win_round then 1 else - 1) (bandit s)),
                           last_context := None\<rparr>)))"
  by (auto simp: observe_round_outcome_def Let_def split: prod.splits sum.splits)


theorem observe_round_outcome_pending_witness:
  "observe_round_outcome True example_engine = (Inr (), example_engine)
   \<and> fst (observe_round_outcome True example_pending_engine) = Inr ()
   \<and> last_context (snd (observe_round_outcome True example_pending_engine)) = None
   \<and> vec_b (bandit (snd (observe_round_outcome True example_pending_engine))) = example_context
   \<and> vec_b (bandit (snd (observe_round_outcome False example_pending_engine)))
       = map uminus example_context"
proof -
  have n: "last_context example_engine = None"
    by (simp add: example_engine_def set_rules_def new_engine_def)
  have p: "last_context example_pending_engine = Some (''ann'', RAISE, example_context)"
    by (simp add: example_pending_engine_def)
  have b: "bandit example_pending_engine = new_LinUCB 9 (9 / 10)"
    by (simp add: example_pending_engine_def example_engine_def set_rules_def new_engine_def)
  have u: "fst (update example_context (if True then 1 else - 1) (bandit example_pending_engine)) = Inr ()"
    "fst (update example_context (if False then 1 else - 1) (bandit example_pending_engine)) = Inr ()"
    by (simp_all add: b update_example_context)
  have v: "vec_b (snd (update example_context 1 (bandit example_pending_engine))) = example_context"
    "vec_b (snd (update example_context (- 1) (bandit example_pending_engine))) = map uminus example_context"
    unfolding b update_example_context by (simp_all add: example_context_def)
  show ?thesis
    using observe_round_outcome_pending [of example_engine True "''ann''" RAISE example_context] n
      observe_round_outcome_pending [of example_pending_engine True "''ann''" RAISE example_context]
      observe_round_outcome_pending [of example_pending_engine False "''ann''" RAISE example_context]
      p u v
    by simp
qed

subsection \<open>The design matrix\<close>

lemma dot_Nil: "dot [] y = 0" "dot x [] = 0"
  by (simp_all add: dot_def)

lemma dot_Cons: "dot (a # x) (b # y) = a * b + dot x y"
  by (simp add: dot_def)

lemma dot_nth:
  assumes "length x = length y"
  shows "dot x y = (\<Sum>i<length x. x ! i * y ! i)"
  using assms
proof (induction x y rule: list_induct2)
  case Nil
  then show ?case by (simp add: dot_Nil)
next
  case (Cons a x b y)
  then show ?case by (simp add: dot_Cons sum.lessThan_Suc_shift del: sum.lessThan_Suc)
qed

lemma dot_zeros: "dot v (zeros n) = 0"
  unfolding zeros_def
proof (induction v arbitrary: n)
  case Nil
  then show ?case by (simp add: dot_Nil)
next
  case (Cons a v)
  then show ?case by (cases n) (simp_all add: dot_Nil dot_Cons)
qed

lemma dot_self_nonneg: "0 \<le> dot v v"
  by (induction v) (simp_all add: dot_Nil dot_Cons)

lemma dot_self_pos:
  assumes "v \<noteq> zeros (length v)"
  shows "0 < dot v v"
  using assms
proof (induction v)
  case Nil
  then show ?case by (simp add: zeros_def)
next
  case (Cons a v)
  show ?case
  proof (cases "a = 0")
    case True
    with Cons.prems have "v \<noteq> zeros (length v)" by (simp add: zeros_def)
    then have "0 < dot v v" by (rule Cons.IH)
    then show ?thesis using True by (simp add: dot_Cons)
  next
    case False
    then have "0 < a * a" using zero_less_power2 [of a] by (simp add: power2_eq_square)
    then show ?thesis using dot_self_nonneg [of v] by (simp add: dot_Cons)
  qed
qed

lemma square_nth:
  assumes "square n M" and "i < n"
  shows "length (M ! i) = n"
  using assms by (simp add: square_def list_all_length)

lemma quad_form_sum:
  assumes "square n M" and "length v = n"
  shows "quad_form M v = (\<Sum>i<n. v ! i * (\<Sum>j<n. M ! i ! j * v ! j))"
proof -
  have l: "length M = n" using assms by (simp add: square_def)
  have "quad_form M v = (\<Sum>i<n. v ! i * matvec M v ! i)"
    using assms l by (simp add: quad_form_def dot_nth matvec_def)
  also have "\<dots> = (\<Sum>i<n. v ! i * (\<Sum>j<n. M ! i ! j * v ! j))"
  proof (rule sum.cong)
    fix i assume "i \<in> {..<n}"
    then have i: "i < n" by simp
    have "matvec M v ! i = dot (M ! i) v" using i l by (simp add: matvec_def)
    also have "\<dots> = (\<Sum>j<n. M ! i ! j * v ! j)"
      using square_nth [OF assms(1) i] assms(2) by (simp add: dot_nth)
    finally show "v ! i * matvec M v ! i = v ! i * (\<Sum>j<n. M ! i ! j * v ! j)" by simp
  qed simp
  finally show ?thesis .
qed

lemma square_eye: "square n (eye n)"
  by (simp add: square_def eye_def list_all_iff)

lemma eye_nth: "i < n \<Longrightarrow> j < n \<Longrightarrow> eye n ! i ! j = (if i = j then 1 else 0)"
  by (simp add: eye_def)

lemma quad_form_eye:
  assumes "length v = n"
  shows "quad_form (eye n) v = dot v v"
proof -
  have "quad_form (eye n) v = (\<Sum>i<n. v ! i * (\<Sum>j<n. eye n ! i ! j * v ! j))"
    using square_eye assms by (rule quad_form_sum)
  also have "\<dots> = (\<Sum>i<n. v ! i * v ! i)"
  proof (rule sum.cong)
    fix i assume "i \<in> {..<n}"
    then have i: "i < n" by simp
    have "(\<Sum>j<n. eye n ! i ! j * v ! j) = (\<Sum>j<n. if i = j then v ! j else 0)"
      using i by (intro sum.cong) (simp_all add: eye_nth)
    also have "\<dots> = v ! i" using i by simp
    finally show "v ! i * (\<Sum>j<n. eye n ! i ! j * v ! j) = v ! i * v ! i" by simp
  qed simp
  also have "\<dots> = dot v v" using assms by (simp add: dot_nth)
  finally show ?thesis .
qed


lemma broadcast_vec_length: "broadcast_vec n x = Some y \<Longrightarrow> length y = n"
  by (auto simp: broadcast_vec_def split: if_splits)

lemma ncols_square: "square n M \<Longrightarrow> M \<noteq> [] \<Longrightarrow> ncols M = n"
  by (cases M) (simp_all add: square_def ncols_def)

lemma iadd_outer_square:
  assumes "square n M" and "iadd_outer M x = Inr M'"
  shows "\<exists>y. length y = n \<and> M' = add_outer y M"
proof -
  have ne: "M \<noteq> []" using assms(2) by (auto simp: iadd_outer_def split: if_splits)
  have l: "length M = n" using assms(1) by (simp add: square_def)
  have c: "ncols M = n" using assms(1) ne by (rule ncols_square)
  from assms(2) ne obtain y where y: "broadcast_vec n x = Some y" and m: "M' = add_outer y M"
    by (auto simp: iadd_outer_def l c add_outer_def split: option.splits)
  then show ?thesis using broadcast_vec_length [OF y] by blast
qed

lemma add_outer_nth:
  assumes "square n M" and "length y = n" and "i < n" and "j < n"
  shows "add_outer y M ! i ! j = M ! i ! j + y ! i * y ! j"
proof -
  have l: "length M = n" using assms(1) by (simp add: square_def)
  have r: "length (M ! i) = n" using assms(1,3) by (rule square_nth)
  show ?thesis using assms l r by (simp add: add_outer_def)
qed

lemma add_outer_square:
  assumes "square n M" and "length y = n"
  shows "square n (add_outer y M)"
proof -
  have l: "length M = n" using assms(1) by (simp add: square_def)
  have "length (add_outer y M ! i) = n" if "i < n" for i
    using that assms l square_nth [OF assms(1) that] by (simp add: add_outer_def)
  then show ?thesis using assms l by (simp add: square_def list_all_length add_outer_def)
qed

lemma add_outer_symmetric:
  assumes "square n M" and "length y = n" and "symmetric M"
  shows "symmetric (add_outer y M)"
proof -
  have l: "length (add_outer y M) = n" using add_outer_square [OF assms(1,2)] by (simp add: square_def)
  have lm: "length M = n" using assms(1) by (simp add: square_def)
  show ?thesis
    unfolding symmetric_def l
  proof (intro allI impI)
    fix i j assume i: "i < n" and j: "j < n"
    have "M ! i ! j = M ! j ! i" using assms(3) i j lm by (simp add: symmetric_def)
    then show "add_outer y M ! i ! j = add_outer y M ! j ! i"
      using add_outer_nth [OF assms(1,2) i j] add_outer_nth [OF assms(1,2) j i] by simp
  qed
qed

lemma quad_form_add_outer:
  assumes "square n M" and "length y = n" and "length v = n"
  shows "quad_form (add_outer y M) v = quad_form M v + dot y v * dot y v"
proof -
  have "quad_form (add_outer y M) v
          = (\<Sum>i<n. v ! i * (\<Sum>j<n. add_outer y M ! i ! j * v ! j))"
    using add_outer_square [OF assms(1,2)] assms(3) by (rule quad_form_sum)
  also have "\<dots> = (\<Sum>i<n. v ! i * (\<Sum>j<n. M ! i ! j * v ! j) + (y ! i * v ! i) * dot y v)"
  proof (rule sum.cong)
    fix i assume "i \<in> {..<n}"
    then have i: "i < n" by simp
    have "(\<Sum>j<n. add_outer y M ! i ! j * v ! j)
            = (\<Sum>j<n. M ! i ! j * v ! j + y ! i * (y ! j * v ! j))"
      using add_outer_nth [OF assms(1,2) i] by (intro sum.cong) (simp_all add: algebra_simps)
    also have "\<dots> = (\<Sum>j<n. M ! i ! j * v ! j) + y ! i * dot y v"
      using assms(2,3) by (simp add: sum.distrib sum_distrib_left dot_nth)
    finally show "v ! i * (\<Sum>j<n. add_outer y M ! i ! j * v ! j)
            = v ! i * (\<Sum>j<n. M ! i ! j * v ! j) + (y ! i * v ! i) * dot y v"
      by (simp add: algebra_simps)
  qed simp
  also have "\<dots> = (\<Sum>i<n. v ! i * (\<Sum>j<n. M ! i ! j * v ! j)) + (\<Sum>i<n. y ! i * v ! i) * dot y v"
    by (simp add: sum.distrib sum_distrib_right)
  also have "\<dots> = quad_form M v + dot y v * dot y v"
    using assms by (simp add: quad_form_sum dot_nth)
  finally show ?thesis .
qed

lemma design_invariant_eye: "design_invariant n (eye n)"
proof -
  have "symmetric (eye n)"
    by (simp add: symmetric_def length_eye eye_nth)
  then show ?thesis
    by (simp add: design_invariant_def square_eye quad_form_eye)
qed

lemma design_invariant_add_outer:
  assumes "design_invariant n M" and "length y = n"
  shows "design_invariant n (add_outer y M)"
proof -
  have s: "square n M" and sy: "symmetric M"
    and q: "\<And>v. length v = n \<Longrightarrow> dot v v \<le> quad_form M v"
    using assms(1) by (simp_all add: design_invariant_def)
  have "dot v v \<le> quad_form (add_outer y M) v" if "length v = n" for v
  proof -
    have "0 \<le> dot y v * dot y v" by simp
    then have "dot v v \<le> quad_form M v + dot y v * dot y v"
      using q [OF that] by (rule add_increasing2)
    then show ?thesis by (simp only: quad_form_add_outer [OF s assms(2) that])
  qed
  then show ?thesis
    using add_outer_square [OF s assms(2)] add_outer_symmetric [OF s assms(2) sy]
    by (simp add: design_invariant_def)
qed

lemma design_invariant_update:
  assumes "design_invariant n (mat_A B)"
  shows "design_invariant n (mat_A (snd (update x reward B)))"
proof (cases "iadd_outer (mat_A B) x")
  case (Inl e)
  then show ?thesis using assms by (simp add: update_def)
next
  case (Inr M')
  have "square n (mat_A B)" using assms by (simp add: design_invariant_def)
  from iadd_outer_square [OF this Inr] obtain y where "length y = n" "M' = add_outer y (mat_A B)"
    by blast
  then have "design_invariant n M'" using assms by (simp add: design_invariant_add_outer)
  then show ?thesis using Inr by (simp add: update_def split: sum.splits)
qed

lemma design_invariant_updates:
  assumes "design_invariant n (mat_A B)"
  shows "design_invariant n (mat_A (updates calls B))"
  using assms unfolding updates_def
proof (induction calls arbitrary: B)
  case Nil
  then show ?case by simp
next
  case (Cons c calls)
  obtain x reward where c: "c = (x, reward)" by (cases c)
  show ?case
    using Cons.IH [OF design_invariant_update [OF Cons.prems, of x reward]]
    by (simp add: c)
qed

lemma design_invariant_positive_definite:
  assumes "design_invariant n M"
  shows "positive_definite M"
proof -
  have l: "length M = n" using assms by (simp add: design_invariant_def square_def)
  have "0 < quad_form M v" if "length v = n" and "v \<noteq> zeros n" for v
  proof -
    have "0 < dot v v" using that dot_self_pos [of v] by simp
    moreover have "dot v v \<le> quad_form M v" using assms that by (simp add: design_invariant_def)
    ultimately show ?thesis by simp
  qed
  then show ?thesis by (simp add: positive_definite_def l)
qed

text \<open>
  C9. From the identity of any dimension, after every sequence of \<^verbatim>\<open>update\<close> calls
  with any vectors and rewards (a call numpy refuses for its shape changes nothing of
  \<^verbatim>\<open>A\<close>), the design matrix is square, symmetric and positive definite, and only the
  zero vector is mapped to zero, which for a square matrix is invertibility.
\<close>

theorem design_matrix_positive_definite:
  "square d (mat_A (updates calls (new_LinUCB d a)))
   \<and> symmetric (mat_A (updates calls (new_LinUCB d a)))
   \<and> positive_definite (mat_A (updates calls (new_LinUCB d a)))
   \<and> (\<forall>v. length v = d \<and> matvec (mat_A (updates calls (new_LinUCB d a))) v = zeros d
          \<longrightarrow> v = zeros d)"
proof -
  let ?M = "mat_A (updates calls (new_LinUCB d a))"
  have "design_invariant d (mat_A (new_LinUCB d a))"
    by (simp add: new_LinUCB_def design_invariant_eye)
  then have i: "design_invariant d ?M" by (rule design_invariant_updates)
  then have pd: "positive_definite ?M" by (rule design_invariant_positive_definite)
  have l: "length ?M = d" using i by (simp add: design_invariant_def square_def)
  have "v = zeros d" if "length v = d" and "matvec ?M v = zeros d" for v
  proof (rule ccontr)
    assume "v \<noteq> zeros d"
    then have "0 < quad_form ?M v" using pd that(1) l by (simp add: positive_definite_def)
    moreover have "quad_form ?M v = 0" using that(2) by (simp add: quad_form_def dot_zeros)
    ultimately show False by simp
  qed
  then show ?thesis using i pd by (simp add: design_invariant_def)
qed

theorem design_matrix_positive_definite_witness:
  "mat_A (updates [([1, 2], 1), ([3], - 1), ([0, 1, 0], 1)] (new_LinUCB 2 (9 / 10)))
     = [[11, 11], [11, 14]]
   \<and> quad_form (mat_A (updates [([1, 2], 1), ([3], - 1), ([0, 1, 0], 1)] (new_LinUCB 2 (9 / 10))))
        [1, - 1] = 3
   \<and> 0 < quad_form (mat_A (updates [([1, 2], 1), ([3], - 1), ([0, 1, 0], 1)] (new_LinUCB 2 (9 / 10))))
        [1, - 1]"
proof -
  let ?c = "[([1, 2], 1), ([3], - 1), ([0, 1, 0], 1)] :: (vector \<times> real) list"
  have e: "eye 2 = [[1, 0], [0, 1]]"
    by (simp add: eye_def upt_conv_Cons)
  have m: "mat_A (updates ?c (new_LinUCB 2 (9 / 10))) = [[11, 11], [11, 14]]"
    by (simp add: updates_def update_def iadd_outer_def iadd_scaled_def broadcast_vec_def
        new_LinUCB_def e ncols_def zeros_def)
  have v: "length [1, - 1 :: real] = length (mat_A (updates ?c (new_LinUCB 2 (9 / 10))))
           \<and> [1, - 1 :: real] \<noteq> zeros (length (mat_A (updates ?c (new_LinUCB 2 (9 / 10)))))"
    by (simp add: m zeros_def)
  have q: "quad_form [[11, 11], [11, 14]] [1, - 1] = 3"
    by (simp add: quad_form_def matvec_def dot_def)
  have "positive_definite (mat_A (updates ?c (new_LinUCB 2 (9 / 10))))"
    using design_matrix_positive_definite [of 2 ?c "9 / 10"] by (elim conjE)
  then have "0 < quad_form (mat_A (updates ?c (new_LinUCB 2 (9 / 10)))) [1, - 1]"
    unfolding positive_definite_def using v by blast
  then show ?thesis using m q by simp
qed

subsection \<open>decide\_action\<close>

lemma raise_move_state:
  "snd (raise_move dr nxt opponent_id cur truthful opp ctx_raise s) = s
   \<or> snd (raise_move dr nxt opponent_id cur truthful opp ctx_raise s)
       = s\<lparr>last_context := Some (opponent_id, RAISE, ctx_raise)\<rparr>"
  by (simp add: raise_move_def split: option.splits sum.splits)

lemma bandit_move_stops:
  "bandit_move ext dr cmp nxt categ opponent_id cur my_roll round_index truthful s0
     = (case mean (bluff_rate_get (fst (profile_of opponent_id s0)) (categ cur)) of
          Inl e \<Rightarrow> (Inl e, snd (profile_of opponent_id s0))
        | Inr cat_bluff_mean \<Rightarrow>
            (case mean (call_rate (fst (profile_of opponent_id s0))) of
               Inl e \<Rightarrow> (Inl e, snd (profile_of opponent_id s0))
             | Inr p_call_mean \<Rightarrow> (Inl AttributeError, snd (profile_of opponent_id s0))))"
proof -
  obtain opp s1 where p: "profile_of opponent_id s0 = (opp, s1)"
    by (cases "profile_of opponent_id s0")
  show ?thesis
    by (simp add: bandit_move_def make_context_def p Let_def split: sum.splits)
qed

lemma bandit_move_state:
  "snd (bandit_move ext dr cmp nxt categ opponent_id cur my_roll round_index truthful s0)
     = snd (profile_of opponent_id s0)"
  by (simp add: bandit_move_stops split: sum.splits)

lemma bandit_move_raises:
  "\<exists>e. fst (bandit_move ext dr cmp nxt categ opponent_id cur my_roll round_index truthful s0) = Inl e"
  by (simp add: bandit_move_stops split: sum.splits)

lemma decide_action_state:
  "\<exists>lc. snd (decide_action ext dr opponent_id current_claim my_roll round_index s)
          = s\<lparr>last_context := lc\<rparr>
      \<or> snd (decide_action ext dr opponent_id current_claim my_roll round_index s)
          = (snd (profile_of opponent_id s))\<lparr>last_context := lc\<rparr>"
proof -
  have k: "\<exists>lc. s = s\<lparr>last_context := lc\<rparr> \<or> P lc" for P
    by (rule exI [of _ "last_context s"]) simp
  have b: "\<exists>lc. P lc
      \<or> snd (profile_of opponent_id s) = (snd (profile_of opponent_id s))\<lparr>last_context := lc\<rparr>" for P
    by (rule exI [of _ "last_context (snd (profile_of opponent_id s))"]) simp
  show ?thesis
    by (simp add: decide_action_def Let_def bandit_move_state k b split: option.splits) blast
qed

lemma decide_action_profiles:
  assumes "profiles s other = Some p"
  shows "profiles (snd (decide_action ext dr opponent_id current_claim my_roll round_index s)) other
           = Some p"
proof -
  let ?s' = "snd (decide_action ext dr opponent_id current_claim my_roll round_index s)"
  from decide_action_state [of ext dr opponent_id current_claim my_roll round_index s]
  obtain lc where "?s' = s\<lparr>last_context := lc\<rparr>
      \<or> ?s' = (snd (profile_of opponent_id s))\<lparr>last_context := lc\<rparr>" ..
  then show ?thesis
  proof
    assume "?s' = s\<lparr>last_context := lc\<rparr>"
    then show ?thesis using assms by simp
  next
    assume a: "?s' = (snd (profile_of opponent_id s))\<lparr>last_context := lc\<rparr>"
    show ?thesis unfolding a using assms by (auto simp: profile_of_def split: option.splits)
  qed
qed

text \<open>
  C10. Whatever the opponent, the current claim (given or not), the roll, the draws and
  the outcome, \<^verbatim>\<open>decide_action\<close> leaves the bandit as it is and every profile the
  engine holds as it is; the profile map is unchanged or gains a fresh default profile
  for an opponent it did not hold; and apart from the profile map and the pending
  context no field of the engine changes.
\<close>

theorem decide_action_frame:
  "bandit (snd (decide_action ext dr opponent_id current_claim my_roll round_index s)) = bandit s
   \<and> (profiles (snd (decide_action ext dr opponent_id current_claim my_roll round_index s))
         = profiles s
      \<or> profiles s opponent_id = None
        \<and> profiles (snd (decide_action ext dr opponent_id current_claim my_roll round_index s))
            = (profiles s)(opponent_id \<mapsto> new_profile))
   \<and> (\<forall>other p. profiles s other = Some p
        \<longrightarrow> profiles (snd (decide_action ext dr opponent_id current_claim my_roll round_index s))
              other = Some p)
   \<and> (snd (decide_action ext dr opponent_id current_claim my_roll round_index s))
        \<lparr>last_context := last_context s, profiles := profiles s\<rparr> = s"
proof -
  let ?s' = "snd (decide_action ext dr opponent_id current_claim my_roll round_index s)"
  from decide_action_state [of ext dr opponent_id current_claim my_roll round_index s]
  obtain lc where "?s' = s\<lparr>last_context := lc\<rparr>
      \<or> ?s' = (snd (profile_of opponent_id s))\<lparr>last_context := lc\<rparr>" ..
  then show ?thesis
  proof
    assume "?s' = s\<lparr>last_context := lc\<rparr>"
    then show ?thesis by simp
  next
    assume a: "?s' = (snd (profile_of opponent_id s))\<lparr>last_context := lc\<rparr>"
    show ?thesis
    proof (cases "profiles s opponent_id")
      case None
      then show ?thesis unfolding a by (auto simp: profile_of_def)
    next
      case (Some p)
      then show ?thesis unfolding a by (simp add: profile_of_def)
    qed
  qed
qed


theorem decide_action_frame_witness:
  "profiles (snd (decide_action example_externals example_draws ''ann'' (Some (4, 1)) (3, 2) 0
       example_known_engine)) ''bob''
     = Some (new_profile\<lparr>call_rate := mk_tracker 4 2\<rparr>)
   \<and> bandit (snd (decide_action example_externals example_draws ''ann'' (Some (4, 1)) (3, 2) 0
       example_known_engine)) = new_LinUCB 9 (9 / 10)"
proof -
  have p: "profiles example_known_engine ''bob'' = Some (new_profile\<lparr>call_rate := mk_tracker 4 2\<rparr>)"
    by (simp add: example_known_engine_def)
  have b: "bandit example_known_engine = new_LinUCB 9 (9 / 10)"
    by (simp add: example_known_engine_def example_engine_def set_rules_def new_engine_def)
  show ?thesis
    using decide_action_frame [of example_externals example_draws "''ann''" "Some (4, 1)" "(3, 2)" 0
        example_known_engine] p b
    by simp
qed


text \<open>
  Past the truthful fast path \<^verbatim>\<open>decide_action\<close> is the bandit path, which ends at
  line 115: the call never returns a challenge, and a call that returns a decision
  leaves the pending context empty.
\<close>

lemma decide_action_bandit_path:
  assumes "compare_claims s = Some cmp" and "next_higher_claim s = Some nxt"
    and "categorize_claim s = Some categ" and "claim_matches_roll s = Some matches"
    and "best_truthful_above cmp cur my_roll = None \<or> \<not> truth_coin dr < 65 / 100 + truth_bias s"
  shows "decide_action ext dr opponent_id (Some cur) my_roll round_index s
     = bandit_move ext dr cmp nxt categ opponent_id cur my_roll round_index
         (best_truthful_above cmp cur my_roll) s"
  using assms by (auto simp: decide_action_def Let_def split: option.splits)

lemma decide_action_never_challenges:
  "fst (decide_action ext dr opponent_id current_claim my_roll round_index s) \<noteq> Inr CallBluff"
proof -
  have "fst (bandit_move ext dr cmp nxt categ opponent_id cur my_roll round_index truthful s)
          \<noteq> Inr CallBluff" for cmp nxt categ cur truthful
    using bandit_move_raises [of ext dr cmp nxt categ opponent_id cur my_roll round_index truthful s]
    by auto
  then show ?thesis
    by (simp add: decide_action_def Let_def split: option.splits)
qed

lemma decide_action_returns_no_pending:
  assumes "fst (decide_action ext dr opponent_id current_claim my_roll round_index s) = Inr d"
  shows "last_context (snd (decide_action ext dr opponent_id current_claim my_roll round_index s)) = None"
proof -
  have "fst (bandit_move ext dr cmp nxt categ opponent_id cur my_roll round_index truthful s)
          \<noteq> Inr d" for cmp nxt categ cur truthful
    using bandit_move_raises [of ext dr cmp nxt categ opponent_id cur my_roll round_index truthful s]
    by auto
  then show ?thesis
    using assms by (auto simp: decide_action_def Let_def split: option.splits if_splits)
qed

text \<open>
  C4 (amended). For a profile of the engine without a tracker for a category, the read
  \<^verbatim>\<open>bluff_rate.get(cat, BetaTracker(1, 1))\<close> of \<^verbatim>\<open>decide_action\<close> (line 111)
  yields the tracker (1, 1), whose mean is 1/2, and raises nothing; \<^verbatim>\<open>decide_action\<close>
  leaves the profile as it is, so the category stays absent, and a call that reaches the
  read with a defined call-rate mean goes on to line 115 and stops there.
  \<^verbatim>\<open>observe_showdown\<close> stores the tracker (1, 1) under the category and updates it.
\<close>

theorem unknown_category_lookup:
  assumes "profiles s opponent_id = Some p" and "bluff_rate p cat = None"
  shows "bluff_rate_get p cat = mk_tracker 1 1
   \<and> mean (bluff_rate_get p cat) = Inr (1 / 2)
   \<and> profiles (snd (decide_action ext dr opponent_id current_claim my_roll round_index s))
        opponent_id = Some p
   \<and> (compare_claims s = Some cmp \<and> next_higher_claim s = Some nxt
        \<and> categorize_claim s = Some categ \<and> claim_matches_roll s = Some matches
        \<and> categ cur = cat
        \<and> (best_truthful_above cmp cur my_roll = None
            \<or> \<not> truth_coin dr < 65 / 100 + truth_bias s)
        \<and> mean (call_rate p) = Inr p_call_mean
       \<longrightarrow> decide_action ext dr opponent_id (Some cur) my_roll round_index s
           = (Inl AttributeError, s))
   \<and> (claim_matches_roll s = Some matches \<and> categorize_claim s = Some categ \<and> categ c = cat
       \<longrightarrow> observe_showdown opponent_id c r caller_is_cpu s
           = (Inr (), s\<lparr>profiles := (profiles s)(opponent_id \<mapsto>
                p\<lparr>bluff_rate := (bluff_rate p)(cat \<mapsto>
                     tracker_update (\<not> matches c r) (mk_tracker 1 1))\<rparr>)\<rparr>))"
proof -
  have g: "bluff_rate_get p cat = mk_tracker 1 1"
    using assms(2) by (simp add: bluff_rate_get_def)
  have m: "mean (bluff_rate_get p cat) = Inr (1 / 2)"
    by (simp add: g mean_def mk_tracker_def)
  have f: "profiles (snd (decide_action ext dr opponent_id current_claim my_roll round_index s))
        opponent_id = Some p"
    using assms(1) by (rule decide_action_profiles)
  have po: "profile_of opponent_id s = (p, s)"
    using assms(1) by (simp add: profile_of_def)
  have d: "decide_action ext dr opponent_id (Some cur) my_roll round_index s
           = (Inl AttributeError, s)"
    if h: "compare_claims s = Some cmp" "next_higher_claim s = Some nxt"
      "categorize_claim s = Some categ" "claim_matches_roll s = Some matches" "categ cur = cat"
      "best_truthful_above cmp cur my_roll = None \<or> \<not> truth_coin dr < 65 / 100 + truth_bias s"
      "mean (call_rate p) = Inr p_call_mean"
  proof -
    have "decide_action ext dr opponent_id (Some cur) my_roll round_index s
            = bandit_move ext dr cmp nxt categ opponent_id cur my_roll round_index
                (best_truthful_above cmp cur my_roll) s"
      using h(1,2,3,4,6) by (rule decide_action_bandit_path)
    also have "\<dots> = (Inl AttributeError, s)"
      by (simp add: bandit_move_stops po h(5,7) m)
    finally show ?thesis .
  qed
  have o: "observe_showdown opponent_id c r caller_is_cpu s
           = (Inr (), s\<lparr>profiles := (profiles s)(opponent_id \<mapsto>
                p\<lparr>bluff_rate := (bluff_rate p)(cat \<mapsto>
                     tracker_update (\<not> matches c r) (mk_tracker 1 1))\<rparr>)\<rparr>)"
    if "claim_matches_roll s = Some matches" "categorize_claim s = Some categ" "categ c = cat"
    using that assms
    by (simp add: observe_showdown_def profile_of_def bluff_rate_setdefault_update_def)
  show ?thesis
    using g m f d o by (intro conjI impI) blast+
qed

lemma example_special_rules:
  "compare_claims example_special_engine = Some example_compare"
  "next_higher_claim example_special_engine = Some example_next"
  "categorize_claim example_special_engine = Some example_categorize_special"
  "claim_matches_roll example_special_engine = Some example_matches"
  "profiles example_special_engine ''bob'' = Some new_profile"
  by (simp_all add: example_special_engine_def set_rules_def new_engine_def)

lemma example_special_facts:
  "bluff_rate new_profile ''special'' = None"
  "example_categorize_special (4, 1) = ''special''"
  "best_truthful_above example_compare (4, 1) (3, 2) = None"
  "mean (call_rate new_profile) = Inr (1 / 3)"
  by (simp_all add: new_profile_def default_bluff_rate_def example_categorize_special_def
      best_truthful_above_def canonical_claim_from_roll_def example_compare_def example_rank_def
      mean_def mk_tracker_def)

theorem unknown_category_lookup_witness:
  "mean (bluff_rate_get new_profile ''special'') = Inr (1 / 2)
   \<and> decide_action example_externals example_draws ''bob'' (Some (4, 1)) (3, 2) 0
        example_special_engine = (Inl AttributeError, example_special_engine)
   \<and> profiles (snd (decide_action example_externals example_draws ''bob'' (Some (4, 1)) (3, 2) 0
        example_special_engine)) ''bob'' = Some new_profile
   \<and> observe_showdown ''bob'' (4, 1) (3, 2) True example_special_engine
       = (Inr (), example_special_engine\<lparr>profiles := (profiles example_special_engine)(''bob'' \<mapsto>
            new_profile\<lparr>bluff_rate := (bluff_rate new_profile)(''special'' \<mapsto>
               tracker_update (\<not> example_matches (4, 1) (3, 2)) (mk_tracker 1 1))\<rparr>)\<rparr>)"
  using unknown_category_lookup [OF example_special_rules(5) example_special_facts(1),
      of example_externals example_draws "Some (4, 1)" "(3, 2)" 0 example_compare example_next
        example_categorize_special example_matches "(4, 1)" "1 / 3" "(4, 1)" "(3, 2)" True]
    example_special_rules example_special_facts
  by blast

text \<open>
  C4 as stated fails: \<^verbatim>\<open>decide_action\<close> reads the category special of bob's profile,
  which has no tracker for it, the read gives the mean 1/2, and the profile has no
  tracker for special afterwards.
\<close>

theorem unknown_category_not_stored_counterexample:
  "example_categorize_special (4, 1) = ''special''
   \<and> map_option (\<lambda>p. bluff_rate p ''special'') (profiles example_special_engine ''bob'') = Some None
   \<and> mean (bluff_rate_get new_profile ''special'') = Inr (1 / 2)
   \<and> decide_action example_externals example_draws ''bob'' (Some (4, 1)) (3, 2) 0
        example_special_engine = (Inl AttributeError, example_special_engine)
   \<and> map_option (\<lambda>p. bluff_rate p ''special'')
        (profiles (snd (decide_action example_externals example_draws ''bob'' (Some (4, 1)) (3, 2) 0
           example_special_engine)) ''bob'') = Some None"
proof -
  have m: "mean (bluff_rate_get new_profile ''special'') = Inr (1 / 2)"
    by (simp add: bluff_rate_get_def example_special_facts(1) mean_def mk_tracker_def)
  have "decide_action example_externals example_draws ''bob'' (Some (4, 1)) (3, 2) 0
        example_special_engine
      = bandit_move example_externals example_draws example_compare example_next
          example_categorize_special ''bob'' (4, 1) (3, 2) 0
          (best_truthful_above example_compare (4, 1) (3, 2)) example_special_engine"
    by (rule decide_action_bandit_path) (simp_all add: example_special_rules example_special_facts)
  also have "\<dots> = (Inl AttributeError, example_special_engine)"
    by (simp add: bandit_move_stops profile_of_def example_special_rules example_special_facts m)
  finally show ?thesis
    by (simp add: m example_special_rules example_special_facts)
qed

text \<open>
  C6. The gate of lines 138 to 143 is never reached: on an engine with the rules set, a
  current claim (5, 5) and the roll (3, 1), which has no truthful claim above it,
  \<^verbatim>\<open>decide_action\<close> creates the profile of the new opponent, reads the two means and
  raises AttributeError at line 115, before the bandit is asked; it returns no challenge
  and no raise and records no pending context.
\<close>

theorem challenge_never_reached:
  "decide_action example_externals example_draws ''ann'' (Some (5, 5)) (3, 1) 0
     example_known_engine
   = (Inl AttributeError,
      example_known_engine\<lparr>profiles := (profiles example_known_engine)(''ann'' \<mapsto> new_profile)\<rparr>)"
proof -
  have r: "compare_claims example_known_engine = Some example_compare"
    "next_higher_claim example_known_engine = Some example_next"
    "categorize_claim example_known_engine = Some example_categorize"
    "claim_matches_roll example_known_engine = Some example_matches"
    "profiles example_known_engine ''ann'' = None"
    by (simp_all add: example_known_engine_def example_engine_def set_rules_def new_engine_def)
  have t: "best_truthful_above example_compare (5, 5) (3, 1) = None"
    by (simp add: best_truthful_above_def canonical_claim_from_roll_def example_compare_def
        example_rank_def)
  have c: "example_categorize (5, 5) = ''double''"
    by (simp add: example_categorize_def)
  have m: "mean (bluff_rate_get new_profile ''double'') = Inr (1 / 3)"
    "mean (call_rate new_profile) = Inr (1 / 3)"
    by (simp_all add: bluff_rate_get_def new_profile_def default_bluff_rate_def mean_def
        mk_tracker_def)
  have "decide_action example_externals example_draws ''ann'' (Some (5, 5)) (3, 1) 0
        example_known_engine
      = bandit_move example_externals example_draws example_compare example_next
          example_categorize ''ann'' (5, 5) (3, 1) 0
          (best_truthful_above example_compare (5, 5) (3, 1)) example_known_engine"
    by (rule decide_action_bandit_path) (simp_all add: r t)
  also have "\<dots> = (Inl AttributeError,
      example_known_engine\<lparr>profiles := (profiles example_known_engine)(''ann'' \<mapsto> new_profile)\<rparr>)"
    by (simp add: bandit_move_stops profile_of_def r c m)
  finally show ?thesis .
qed

end
